theory Spec2Isabelle
  imports Main
begin

section \<open>Untrusted input: JSON-like values\<close>

text \<open>
  \<^verbatim>\<open>validateActionPlan\<close> takes a value of TypeScript type \<^verbatim>\<open>unknown\<close>; in the extension it is
  the output of \<^verbatim>\<open>JSON.parse\<close>. Such a value is modelled as a JSON tree. An object is an
  association list read with \<open>map_of\<close> (a JavaScript object has one binding per key; a list
  that repeats a key stands for the object holding its first binding). A JavaScript string is
  a \<open>string\<close>, one \<open>char\<close> per code unit. Numbers are never inspected by the code modelled
  here; they carry an integer.
\<close>

datatype json =
    JNull
  | JBool bool
  | JNum int
  | JStr string
  | JArr "json list"
  | JObj "(string \<times> json) list"

text \<open>\<^verbatim>\<open>typeof v === 'object' && v !== null\<close>: true of objects and of arrays.\<close>

fun is_object :: "json \<Rightarrow> bool" where
  "is_object (JObj kvs) = True"
| "is_object (JArr xs) = True"
| "is_object v = False"

text \<open>
  Property access \<^verbatim>\<open>s.key\<close> on a value that passed \<open>is_object\<close>; \<open>None\<close> is
  \<^verbatim>\<open>undefined\<close>. None of the keys the validator reads (\<^verbatim>\<open>steps\<close>, \<^verbatim>\<open>action\<close>, \<^verbatim>\<open>url\<close>,
  \<^verbatim>\<open>text\<close>, \<^verbatim>\<open>selector\<close>, \<^verbatim>\<open>value\<close>, \<^verbatim>\<open>name\<close>) is a property of an array.
\<close>

fun get_prop :: "json \<Rightarrow> string \<Rightarrow> json option" where
  "get_prop (JObj kvs) k = map_of kvs k"
| "get_prop v k = None"

text \<open>\<^verbatim>\<open>typeof v === 'string'\<close>, giving the string.\<close>

fun as_string :: "json option \<Rightarrow> string option" where
  "as_string (Some (JStr s)) = Some s"
| "as_string v = None"

text \<open>\<^verbatim>\<open>Array.isArray(v)\<close>, giving the elements.\<close>

fun as_array :: "json option \<Rightarrow> json list option" where
  "as_array (Some (JArr xs)) = Some xs"
| "as_array v = None"

text \<open>
  The test \<^verbatim>\<open>typeof v !== 'string' || !v\<close> of the required-field checks: the field is not a
  string, or it is the empty string (the only falsy string).
\<close>

definition missing_or_blank :: "json option \<Rightarrow> bool" where
  "missing_or_blank v = (case as_string v of None \<Rightarrow> True | Some s \<Rightarrow> s = [])"

text \<open>The test \<^verbatim>\<open>typeof v !== 'string'\<close> alone, as used for the \<^verbatim>\<open>value\<close> of a \<^verbatim>\<open>type\<close> step.\<close>

definition not_a_string :: "json option \<Rightarrow> bool" where
  "not_a_string v = (as_string v = None)"

subsection \<open>Printing an array index\<close>

text \<open>
  The template literal \<^verbatim>\<open>${index}\<close> prints an array index, a natural number, in decimal
  without leading zeros.
\<close>

definition digit :: "nat \<Rightarrow> char" where
  "digit d = ''0123456789'' ! d"

fun show_nat :: "nat \<Rightarrow> string" where
  "show_nat n = (if n < 10 then [digit n] else show_nat (n div 10) @ [digit (n mod 10)])"

declare show_nat.simps [simp del]

section \<open>The action schema (actionDsl.ts)\<close>

definition AVAILABLE_TOOLS :: "string list" where
  "AVAILABLE_TOOLS =
     [''goto'', ''clickText'', ''type'', ''waitForText'', ''extractText'', ''snapshotText'',
      ''screenshot'', ''closeBrowser'']"

text \<open>
  The interface \<^verbatim>\<open>ActionStep\<close>. Its fields \<^verbatim>\<open>text\<close> and \<^verbatim>\<open>value\<close> are named \<open>text_field\<close> and
  \<open>value_field\<close> here, since both words are Isabelle keywords. An absent optional field is
  \<open>None\<close>.
\<close>

record ActionStep =
  action :: string
  url :: "string option"
  text_field :: "string option"
  selector :: "string option"
  value_field :: "string option"
  name :: "string option"

record ActionPlan =
  steps :: "ActionStep list"

section \<open>The validator (actionDsl.ts)\<close>

text \<open>The common shape \<^verbatim>\<open>`Step ${index}: ...`\<close> of every message of \<^verbatim>\<open>validateStep\<close>.\<close>

definition step_msg :: "nat \<Rightarrow> string \<Rightarrow> string" where
  "step_msg index m = ''Step '' @ show_nat index @ '': '' @ m"

text \<open>
  \<^verbatim>\<open>validateStep(step, index, enabledTools)\<close>. The three early returns come first; the
  \<^verbatim>\<open>switch\<close> is the chain of comparisons below, its \<^verbatim>\<open>default\<close> the last branch. In the
  \<^verbatim>\<open>type\<close> case both checks run, so that case can push two messages.
\<close>

definition validateStep :: "json \<Rightarrow> nat \<Rightarrow> string list \<Rightarrow> string list" where
  "validateStep step index enabledTools =
    (if \<not> is_object step then [step_msg index ''must be an object'']
     else case as_string (get_prop step ''action'') of
       None \<Rightarrow> [step_msg index ''\"action\" must be a string'']
     | Some act \<Rightarrow>
        if act \<notin> set enabledTools then
          [step_msg index (''action \"'' @ act @ ''\" is not in the enabled tools list'')]
        else if act = ''goto'' then
          (if missing_or_blank (get_prop step ''url'')
           then [step_msg index ''\"goto\" requires a non-empty \"url\" string''] else [])
        else if act = ''clickText'' then
          (if missing_or_blank (get_prop step ''text'')
           then [step_msg index ''\"clickText\" requires a non-empty \"text\" string''] else [])
        else if act = ''type'' then
          (if missing_or_blank (get_prop step ''selector'')
           then [step_msg index ''\"type\" requires a non-empty \"selector\" string''] else [])
          @ (if not_a_string (get_prop step ''value'')
             then [step_msg index ''\"type\" requires a \"value\" string''] else [])
        else if act = ''waitForText'' then
          (if missing_or_blank (get_prop step ''text'')
           then [step_msg index ''\"waitForText\" requires a non-empty \"text\" string''] else [])
        else if act = ''extractText'' then
          (if missing_or_blank (get_prop step ''selector'')
           then [step_msg index ''\"extractText\" requires a non-empty \"selector\" string'']
           else [])
        else if act = ''snapshotText'' \<or> act = ''closeBrowser'' then []
        else if act = ''screenshot'' then
          (if missing_or_blank (get_prop step ''name'')
           then [step_msg index ''\"screenshot\" requires a non-empty \"name\" string''] else [])
        else [step_msg index (''unknown action \"'' @ act @ ''\"'')])"

text \<open>
  The type assertion \<^verbatim>\<open>obj.steps as ActionStep[]\<close>: no run-time conversion happens, the
  accepted objects are read through the interface. A field that is not a string reads as
  absent; on an accepted step the action and the fields its kind requires are strings, so
  nothing the runner reads is lost.
\<close>

definition as_ActionStep :: "json \<Rightarrow> ActionStep" where
  "as_ActionStep j =
     \<lparr>action = (case as_string (get_prop j ''action'') of None \<Rightarrow> [] | Some a \<Rightarrow> a),
      url = as_string (get_prop j ''url''),
      text_field = as_string (get_prop j ''text''),
      selector = as_string (get_prop j ''selector''),
      value_field = as_string (get_prop j ''value''),
      name = as_string (get_prop j ''name'')\<rparr>"

record ValidationResult =
  valid :: bool
  errors :: "string list"
  plan :: "ActionPlan option"

text \<open>
  The loop \<^verbatim>\<open>for (let i = 0; i < obj.steps.length; i++)\<close> with its accumulator \<^verbatim>\<open>errors\<close>.
\<close>

function validate_loop :: "json list \<Rightarrow> string list \<Rightarrow> nat \<Rightarrow> string list \<Rightarrow> string list" where
  "validate_loop stepsArr enabledTools i errs =
     (if i < length stepsArr
      then validate_loop stepsArr enabledTools (Suc i)
             (errs @ validateStep (stepsArr ! i) i enabledTools)
      else errs)"
  by pat_completeness auto
termination
  by (relation "measure (\<lambda>(stepsArr, enabledTools, i, errs). length stepsArr - i)") auto

declare validate_loop.simps [simp del]

definition validateActionPlan :: "json \<Rightarrow> string list \<Rightarrow> ValidationResult" where
  "validateActionPlan raw enabledTools =
    (if \<not> is_object raw then
       \<lparr>valid = False, errors = [''Plan must be a JSON object''], plan = None\<rparr>
     else case as_array (get_prop raw ''steps'') of
       None \<Rightarrow> \<lparr>valid = False, errors = [''\"steps\" must be an array''], plan = None\<rparr>
     | Some stepsArr \<Rightarrow>
        (let errs = validate_loop stepsArr enabledTools 0 [] in
         if length errs > 0 then \<lparr>valid = False, errors = errs, plan = None\<rparr>
         else \<lparr>valid = True, errors = [],
               plan = Some \<lparr>steps = map as_ActionStep stepsArr\<rparr>\<rparr>))"

section \<open>The browser and the host platform\<close>

text \<open>
  The runner talks to Playwright. Each awaited interaction is one \<open>call\<close>; the locator
  chains \<^verbatim>\<open>page.getByText(t, {exact: false}).first().click(...)\<close>,
  \<^verbatim>\<open>page.locator(s).fill(v, ...)\<close>, \<^verbatim>\<open>page.getByText(t, ...).first().waitFor(...)\<close>,
  \<^verbatim>\<open>page.locator(s).first().innerText(...)\<close> and \<^verbatim>\<open>page.locator('body').innerText(...)\<close> are
  one call each, since a throw anywhere in a chain reaches the same handler. Arguments read
  with the non-null assertion \<^verbatim>\<open>!\<close> are passed on as they are, \<open>None\<close> for \<^verbatim>\<open>undefined\<close>. The
  fixed timeouts (30000 ms for \<^verbatim>\<open>goto\<close>, 10000 ms elsewhere) are options of the calls and do
  not appear.
\<close>

datatype call =
    Launch
  | NewContext
  | NewPage
  | Goto string
  | ClickText "string option"
  | Fill "string option" "string option"
  | WaitForText "string option"
  | InnerText "string option"
  | BodyInnerText
  | Screenshot string
  | Close

text \<open>
  A call returns or throws. \<open>Returns v\<close> carries the returned text (ignored where the call
  returns nothing); \<open>Throws m\<close> carries the message the handlers compute from the thrown
  value, \<^verbatim>\<open>err instanceof Error ? err.message : String(err)\<close>.
\<close>

datatype reply = Returns string | Throws string

text \<open>
  Everything outside the repository is a parameter of the model: how the browser answers a
  call after a given history of calls, the constructor \<^verbatim>\<open>new URL(u)\<close> (\<open>Inl\<close> the message of
  the \<^verbatim>\<open>TypeError\<close> it throws, \<open>Inr\<close> the \<^verbatim>\<open>protocol\<close> of the parsed URL, colon included),
  \<^verbatim>\<open>os.tmpdir()\<close> and \<^verbatim>\<open>path.join\<close> at two arguments.
\<close>

record world =
  respond :: "call list \<Rightarrow> call \<Rightarrow> reply"
  new_URL :: "string \<Rightarrow> string + string"
  os_tmpdir :: string
  path_join :: "string \<Rightarrow> string \<Rightarrow> string"

text \<open>
  \<^verbatim>\<open>path.basename(p)\<close> of Node on a POSIX host, without the suffix argument: trailing
  slashes are skipped, then the characters back to the previous slash are taken.
\<close>

definition basename :: "string \<Rightarrow> string" where
  "basename p =
     rev (takeWhile (\<lambda>c. c \<noteq> CHR ''/'') (dropWhile (\<lambda>c. c = CHR ''/'') (rev p)))"

text \<open>The message of the \<^verbatim>\<open>TypeError\<close> of \<^verbatim>\<open>path.basename(undefined)\<close>.\<close>

definition basename_type_error :: string where
  "basename_type_error = ''The \"path\" argument must be of type string. Received undefined''"

section \<open>The runner (playwrightRunner.ts)\<close>

text \<open>
  The interface \<^verbatim>\<open>ExecutionResult\<close>; its field \<^verbatim>\<open>action\<close> is named \<open>result_action\<close>, apart from
  the field of \<open>ActionStep\<close>.
\<close>

record ExecutionResult =
  result_action :: string
  success :: bool
  data :: "string option"
  error :: "string option"

text \<open>The two object literals \<^verbatim>\<open>executeStep\<close> returns.\<close>

definition succeeded :: "ActionStep \<Rightarrow> string option \<Rightarrow> ExecutionResult" where
  "succeeded step d = \<lparr>result_action = action step, success = True, data = d, error = None\<rparr>"

definition failed :: "ActionStep \<Rightarrow> string \<Rightarrow> ExecutionResult" where
  "failed step m = \<lparr>result_action = action step, success = False, data = None, error = Some m\<rparr>"

text \<open>
  An awaited call inside the \<^verbatim>\<open>try\<close> of \<^verbatim>\<open>executeStep\<close>: the call is made and recorded; a throw
  reaches the outer \<^verbatim>\<open>catch\<close> and becomes a failed result. \<open>await_void\<close> is followed by
  \<^verbatim>\<open>return {action, success: true}\<close>, \<open>await_text\<close> by a return with the text as \<^verbatim>\<open>data\<close>.
\<close>

definition await_void :: "world \<Rightarrow> ActionStep \<Rightarrow> call \<Rightarrow> call list \<Rightarrow> ExecutionResult \<times> call list" where
  "await_void w step c h =
     (case respond w h c of
        Returns v \<Rightarrow> (succeeded step None, h @ [c])
      | Throws m \<Rightarrow> (failed step m, h @ [c]))"

definition await_text :: "world \<Rightarrow> ActionStep \<Rightarrow> call \<Rightarrow> call list \<Rightarrow> ExecutionResult \<times> call list" where
  "await_text w step c h =
     (case respond w h c of
        Returns v \<Rightarrow> (succeeded step (Some v), h @ [c])
      | Throws m \<Rightarrow> (failed step m, h @ [c]))"

text \<open>The character class \<^verbatim>\<open>[a-zA-Z0-9_.-]\<close>, whose complement the screenshot branch replaces.\<close>

definition safe_char :: "char \<Rightarrow> bool" where
  "safe_char c =
     (c \<in> set ''abcdefghijklmnopqrstuvwxyzABCDEFGHIJKLMNOPQRSTUVWXYZ0123456789_.-'')"

text \<open>
  \<^verbatim>\<open>const safeName = path.basename(step.name!).replace(/[^a-zA-Z0-9_.-]/g, '_')\<close> and
  \<^verbatim>\<open>const screenshotPath = path.join(os.tmpdir(), `${safeName}.png`)\<close>.
\<close>

definition safeName :: "string \<Rightarrow> string" where
  "safeName n = map (\<lambda>c. if safe_char c then c else CHR ''_'') (basename n)"

definition screenshotPath :: "world \<Rightarrow> string \<Rightarrow> string" where
  "screenshotPath w n = path_join w (os_tmpdir w) (safeName n @ ''.png'')"

text \<open>
  \<^verbatim>\<open>executeStep(step, page)\<close>, with the history of calls passed through. \<^verbatim>\<open>!step.url\<close> holds of
  an absent and of an empty url. In the screenshot branch an absent name makes
  \<^verbatim>\<open>path.basename\<close> throw before any call.
\<close>

definition executeStep :: "world \<Rightarrow> ActionStep \<Rightarrow> call list \<Rightarrow> ExecutionResult \<times> call list" where
  "executeStep w step h =
    (if action step = ''goto'' then
       (case url step of
          None \<Rightarrow> (failed step ''\"url\" is required for goto'', h)
        | Some u \<Rightarrow>
            if u = [] then (failed step ''\"url\" is required for goto'', h)
            else (case new_URL w u of
                Inr protocol \<Rightarrow>
                  if protocol \<noteq> ''http:'' \<and> protocol \<noteq> ''https:'' then
                    (failed step
                       (''Only http and https URLs are allowed, got \"'' @ protocol @ ''\"''), h)
                  else await_void w step (Goto u) h
              | Inl msg \<Rightarrow> (failed step (''Invalid URL: \"'' @ u @ ''\" - '' @ msg), h)))
     else if action step = ''clickText'' then await_void w step (ClickText (text_field step)) h
     else if action step = ''type'' then
       await_void w step (Fill (selector step) (value_field step)) h
     else if action step = ''waitForText'' then
       await_void w step (WaitForText (text_field step)) h
     else if action step = ''extractText'' then await_text w step (InnerText (selector step)) h
     else if action step = ''snapshotText'' then await_text w step BodyInnerText h
     else if action step = ''screenshot'' then
       (case name step of
          None \<Rightarrow> (failed step basename_type_error, h)
        | Some n \<Rightarrow>
            (case respond w h (Screenshot (screenshotPath w n)) of
               Returns v \<Rightarrow>
                 (succeeded step (Some (screenshotPath w n)), h @ [Screenshot (screenshotPath w n)])
             | Throws m \<Rightarrow> (failed step m, h @ [Screenshot (screenshotPath w n)])))
     else if action step = ''closeBrowser'' then (succeeded step None, h)
     else (failed step (''Unknown action: '' @ action step), h))"

text \<open>
  The loop \<^verbatim>\<open>for (const step of plan.steps)\<close>: a \<^verbatim>\<open>closeBrowser\<close> step is executed, its result
  pushed, and the loop left.
\<close>

fun step_loop ::
  "world \<Rightarrow> ActionStep list \<Rightarrow> ExecutionResult list \<Rightarrow> call list \<Rightarrow> ExecutionResult list \<times> call list"
where
  "step_loop w [] results h = (results, h)"
| "step_loop w (step # rest) results h =
     (if action step = ''closeBrowser''
      then (results @ [fst (executeStep w step h)], snd (executeStep w step h))
      else step_loop w rest (results @ [fst (executeStep w step h)]) (snd (executeStep w step h)))"

text \<open>The synthetic result pushed by the \<^verbatim>\<open>catch\<close> of \<^verbatim>\<open>executePlan\<close>.\<close>

definition browser_init :: "string \<Rightarrow> ExecutionResult" where
  "browser_init m =
     \<lparr>result_action = ''browser-init'', success = False, data = None, error = Some m\<rparr>"

text \<open>
  The \<^verbatim>\<open>try\<close> block of \<^verbatim>\<open>executePlan\<close>. It yields the thrown message if it was left by a throw,
  the results pushed so far, whether \<^verbatim>\<open>browser\<close> has been assigned, and the history. Only the
  three set-up calls can throw here: \<^verbatim>\<open>executeStep\<close> catches inside.
\<close>

definition try_block ::
  "world \<Rightarrow> ActionPlan \<Rightarrow> call list \<Rightarrow> string option \<times> ExecutionResult list \<times> bool \<times> call list"
where
  "try_block w pl h =
    (case respond w h Launch of
       Throws m \<Rightarrow> (Some m, [], False, h @ [Launch])
     | Returns b \<Rightarrow>
        (case respond w (h @ [Launch]) NewContext of
           Throws m \<Rightarrow> (Some m, [], True, h @ [Launch, NewContext])
         | Returns c \<Rightarrow>
            (case respond w (h @ [Launch, NewContext]) NewPage of
               Throws m \<Rightarrow> (Some m, [], True, h @ [Launch, NewContext, NewPage])
             | Returns p \<Rightarrow>
                (case step_loop w (steps pl) [] (h @ [Launch, NewContext, NewPage]) of
                   (results, h') \<Rightarrow> (None, results, True, h')))))"

text \<open>
  The \<^verbatim>\<open>finally\<close> block: if \<^verbatim>\<open>browser\<close> is set, \<^verbatim>\<open>browser.close()\<close> is awaited inside its own
  \<^verbatim>\<open>try\<close> with an empty \<^verbatim>\<open>catch\<close>.
\<close>

definition finally_block :: "world \<Rightarrow> bool \<Rightarrow> call list \<Rightarrow> call list" where
  "finally_block w browser h =
     (if browser then (case respond w h Close of Returns v \<Rightarrow> h @ [Close] | Throws m \<Rightarrow> h @ [Close])
      else h)"

text \<open>
  \<^verbatim>\<open>executePlan(plan)\<close>, started after the history \<open>h\<close>: the results it returns and the
  history it leaves. Every throwing call lies in a \<^verbatim>\<open>try\<close> whose handler is modelled, so no
  throw leaves the function and its value is always a result list.
\<close>

definition executePlan :: "world \<Rightarrow> ActionPlan \<Rightarrow> call list \<Rightarrow> ExecutionResult list \<times> call list" where
  "executePlan w pl h =
    (case try_block w pl h of
       (thrown, results, browser, h') \<Rightarrow>
         ((case thrown of None \<Rightarrow> results | Some m \<Rightarrow> results @ [browser_init m]),
          finally_block w browser h'))"

section \<open>A sample platform\<close>

text \<open>
  A concrete platform on which examples are evaluated; the general theorems hold of every
  platform. Its URL constructor is not a model of Node's \<^verbatim>\<open>URL\<close> class: it is a table holding
  Node's answers for the URLs evaluated in this development (the error message \<^verbatim>\<open>Invalid URL\<close>
  for the empty string and for a string without a scheme, the protocol for the three others)
  and rejects every string outside the table, as a platform on which no other URL parses.
  Whatever it accepts, Node accepts with the same protocol. Its temporary directory is
  \<^verbatim>\<open>/tmp\<close>; \<^verbatim>\<open>path.join\<close> of a normalised directory and a plain file name puts a slash between
  them; every browser call returns.
\<close>

definition sample_urls :: "(string \<times> (string + string)) list" where
  "sample_urls =
     [(''https://example.com'', Inr ''https:''),
      (''file:///etc/passwd'', Inr ''file:''),
      (''javascript:alert(1)'', Inr ''javascript:''),
      (''not a url'', Inl ''Invalid URL''),
      ([], Inl ''Invalid URL'')]"

definition sample_new_URL :: "string \<Rightarrow> string + string" where
  "sample_new_URL u = (case map_of sample_urls u of Some r \<Rightarrow> r | None \<Rightarrow> Inl ''Invalid URL'')"

definition sample_world :: world where
  "sample_world =
     \<lparr>respond = (\<lambda>h c. Returns []),
      new_URL = sample_new_URL,
      os_tmpdir = ''/tmp'',
      path_join = (\<lambda>d f. d @ ''/'' @ f)\<rparr>"

text \<open>The sample platform with a browser that answers the call \<open>c\<close> by throwing \<open>m\<close>.\<close>

definition throwing_at :: "call \<Rightarrow> string \<Rightarrow> world" where
  "throwing_at c m = sample_world\<lparr>respond := (\<lambda>h c'. if c' = c then Throws m else Returns [])\<rparr>"

section \<open>Notions of the specification\<close>

text \<open>
  A step at position \<open>i\<close> is attempted when no step at a position before \<open>i\<close> has the action
  \<^verbatim>\<open>closeBrowser\<close>.
\<close>

definition attempted :: "ActionStep list \<Rightarrow> nat \<Rightarrow> bool" where
  "attempted ss i = list_all (\<lambda>s. action s \<noteq> ''closeBrowser'') (take i ss)"

text \<open>
  Session initialisation: the message of the first of the three set-up calls that throws,
  \<open>None\<close> when the browser, its context and the page are all created.
\<close>

definition init_error :: "world \<Rightarrow> call list \<Rightarrow> string option" where
  "init_error w h =
    (case respond w h Launch of
       Throws m \<Rightarrow> Some m
     | Returns b \<Rightarrow>
        (case respond w (h @ [Launch]) NewContext of
           Throws m \<Rightarrow> Some m
         | Returns c \<Rightarrow>
            (case respond w (h @ [Launch, NewContext]) NewPage of
               Throws m \<Rightarrow> Some m
             | Returns p \<Rightarrow> None)))"

text \<open>
  The sanitisation in the specification's words: every character outside
  \<^verbatim>\<open>[A-Za-z0-9_.-]\<close> is stripped from the caller-given name.
\<close>

definition strip_unsafe :: "string \<Rightarrow> string" where
  "strip_unsafe n = filter safe_char n"

text \<open>
  The per-kind field table of the specification: the fields each action kind requires, with
  whether the field must also be non-empty.
\<close>

definition required_fields :: "string \<Rightarrow> (string \<times> bool) list" where
  "required_fields act =
     (if act = ''goto'' then [(''url'', True)]
      else if act = ''clickText'' then [(''text'', True)]
      else if act = ''type'' then [(''selector'', True), (''value'', False)]
      else if act = ''waitForText'' then [(''text'', True)]
      else if act = ''extractText'' then [(''selector'', True)]
      else if act = ''screenshot'' then [(''name'', True)]
      else [])"

text \<open>A required field is violated when it is not a string, or is empty where it must not be.\<close>

definition field_violated :: "json \<Rightarrow> string \<times> bool \<Rightarrow> bool" where
  "field_violated step f =
     (case as_string (get_prop step (fst f)) of None \<Rightarrow> True | Some s \<Rightarrow> snd f \<and> s = [])"

text \<open>The message for a violated field: it names the step index, the action kind and the field.\<close>

definition field_error :: "nat \<Rightarrow> string \<Rightarrow> string \<times> bool \<Rightarrow> string" where
  "field_error i act f =
     ''Step '' @ show_nat i @ '': \"'' @ act @ ''\" requires a ''
       @ (if snd f then ''non-empty '' else []) @ ''\"'' @ fst f @ ''\" string''"

text \<open>
  The steps at the attempted positions of a plan, in plan order, and the execution of given
  steps one after the other with no early exit: one \<^verbatim>\<open>executeStep\<close> per step, each started from
  the history its predecessor left.
\<close>

definition attempted_steps :: "ActionStep list \<Rightarrow> ActionStep list" where
  "attempted_steps ss = map (\<lambda>i. ss ! i) (filter (attempted ss) [0..<length ss])"

fun run_each :: "world \<Rightarrow> ActionStep list \<Rightarrow> call list \<Rightarrow> ExecutionResult list \<times> call list" where
  "run_each w [] h = ([], h)"
| "run_each w (s # ss) h =
     (fst (executeStep w s h) # fst (run_each w ss (snd (executeStep w s h))),
      snd (run_each w ss (snd (executeStep w s h))))"

text \<open>
  A url is refused when \<^verbatim>\<open>new URL\<close> cannot parse it, or parses it to a protocol other than
  \<^verbatim>\<open>http:\<close> and \<^verbatim>\<open>https:\<close>.
\<close>

definition url_refused :: "world \<Rightarrow> string \<Rightarrow> bool" where
  "url_refused w u =
     (case new_URL w u of Inl msg \<Rightarrow> True | Inr p \<Rightarrow> p \<noteq> ''http:'' \<and> p \<noteq> ''https:'')"

text \<open>A message cites a text when the text occurs in it, at some position.\<close>

definition cites :: "string \<Rightarrow> string \<Rightarrow> bool" where
  "cites x e = list_ex (\<lambda>i. take (length x) (drop i e) = x) [0..<Suc (length e)]"



section \<open>Sample inputs\<close>

text \<open>The step \<^verbatim>\<open>{action: a}\<close> with no other field.\<close>

definition bare_step :: "string \<Rightarrow> ActionStep" where
  "bare_step a =
     \<lparr>action = a, url = None, text_field = None, selector = None, value_field = None,
      name = None\<rparr>"

text \<open>The plan of the early-termination scenario: navigate, close the session, screenshot.\<close>

definition goto_close_shot :: ActionPlan where
  "goto_close_shot =
     \<lparr>steps =
        [(bare_step ''goto'')\<lparr>url := Some ''https://example.com''\<rparr>,
         bare_step ''closeBrowser'',
         (bare_step ''screenshot'')\<lparr>name := Some ''shot''\<rparr>]\<rparr>"

text \<open>
  The input \<^verbatim>\<open>{steps: [{action: 'goto'}, {action: 'type', selector: '#x'}]}\<close> of the test
  ``validates multiple steps and collects all errors'', and its array of steps.
\<close>

definition two_defects_steps :: "json list" where
  "two_defects_steps =
     [JObj [(''action'', JStr ''goto'')],
      JObj [(''action'', JStr ''type''), (''selector'', JStr ''#x'')]]"

definition two_defects :: json where
  "two_defects = JObj [(''steps'', JArr two_defects_steps)]"

text \<open>The input \<^verbatim>\<open>{"steps":[{"action":"type","selector":"#input"}]}\<close>, whose step lacks \<^verbatim>\<open>value\<close>.\<close>

definition type_without_value :: json where
  "type_without_value = JObj [(''action'', JStr ''type''), (''selector'', JStr ''#input'')]"

definition type_without_value_plan :: json where
  "type_without_value_plan = JObj [(''steps'', JArr [type_without_value])]"

text \<open>The plan \<^verbatim>\<open>{steps: [{action: 'screenshot', name: n}]}\<close> and its step after validation.\<close>

definition screenshot_json :: "string \<Rightarrow> json" where
  "screenshot_json n = JObj [(''action'', JStr ''screenshot''), (''name'', JStr n)]"

definition screenshot_plan :: "string \<Rightarrow> json" where
  "screenshot_plan n = JObj [(''steps'', JArr [screenshot_json n])]"

definition screenshot_step :: "string \<Rightarrow> ActionStep" where
  "screenshot_step n = (bare_step ''screenshot'')\<lparr>name := Some n\<rparr>"

text \<open>The step \<^verbatim>\<open>{action: 'goto', url: u}\<close>.\<close>

definition goto_step :: "string \<Rightarrow> ActionStep" where
  "goto_step u = (bare_step ''goto'')\<lparr>url := Some u\<rparr>"

text \<open>A step whose action \<^verbatim>\<open>deleteEverything\<close> is not in the schema, as in the test ``rejects unknown actions''.\<close>

definition unknown_json :: json where
  "unknown_json = JObj [(''action'', JStr ''deleteEverything'')]"

text \<open>The step \<^verbatim>\<open>{action: 'goto', url: 'https://example.com'}\<close> of the test ``rejects disabled tools''.\<close>

definition goto_json :: json where
  "goto_json = JObj [(''action'', JStr ''goto''), (''url'', JStr ''https://example.com'')]"



section \<open>Properties of the validator\<close>

lemma show_nat_0: "show_nat 0 = ''0''"
  by (simp add: show_nat.simps digit_def)

lemma show_nat_Suc_0: "show_nat (Suc 0) = ''1''"
  by (simp add: show_nat.simps digit_def)

text \<open>The loop appends, to what it was given, the messages of the steps from \<open>i\<close> on, in order.\<close>

lemma validate_loop_concat:
  "validate_loop ss tools i errs =
     errs @ concat (map (\<lambda>j. validateStep (ss ! j) j tools) [i..<length ss])"
proof (induction ss tools i errs rule: validate_loop.induct)
  case (1 ss tools i errs)
  show ?case
  proof (cases "i < length ss")
    case True
    then have "[i..<length ss] = i # [Suc i..<length ss]"
      by (simp add: upt_conv_Cons)
    with True 1 show ?thesis
      by (subst validate_loop.simps) simp
  next
    case False
    then show ?thesis
      by (subst validate_loop.simps) simp
  qed
qed

lemma errors_of_array:
  assumes "is_object raw" and "as_array (get_prop raw ''steps'') = Some stepsArr"
  shows "errors (validateActionPlan raw tools) =
           concat (map (\<lambda>i. validateStep (stepsArr ! i) i tools) [0..<length stepsArr])"
  using assms by (simp add: validateActionPlan_def validate_loop_concat Let_def)

lemma valid_iff_no_errors:
  "valid (validateActionPlan raw tools) = (errors (validateActionPlan raw tools) = [])"
  by (simp add: validateActionPlan_def Let_def split: option.splits)

text \<open>
  Claim C7. When the \<^verbatim>\<open>steps\<close> field of the input is an array, \<^verbatim>\<open>validateActionPlan\<close>
  validates every element, in order and each under its own 0-based index, and returns the
  messages of all of them: the error list is the concatenation of the per-step lists, so a
  failing step never hides the defects of a later one. The result is valid exactly when that
  list is empty.
\<close>

theorem validateActionPlan_accumulates:
  assumes "is_object raw" and "as_array (get_prop raw ''steps'') = Some stepsArr"
  shows "errors (validateActionPlan raw tools) =
           concat (map (\<lambda>i. validateStep (stepsArr ! i) i tools) [0..<length stepsArr])
         \<and> valid (validateActionPlan raw tools) = (errors (validateActionPlan raw tools) = [])"
  using assms by (simp add: errors_of_array valid_iff_no_errors)

text \<open>
  The two-step plan whose first step lacks \<^verbatim>\<open>url\<close> and whose second lacks \<^verbatim>\<open>value\<close> is
  invalid with exactly two errors, one per step, each naming its own index.
\<close>

theorem validateActionPlan_accumulates_witness:
  "is_object two_defects
   \<and> as_array (get_prop two_defects ''steps'') = Some two_defects_steps
   \<and> errors (validateActionPlan two_defects AVAILABLE_TOOLS) =
       [''Step 0: \"goto\" requires a non-empty \"url\" string'',
        ''Step 1: \"type\" requires a \"value\" string'']
   \<and> \<not> valid (validateActionPlan two_defects AVAILABLE_TOOLS)"
proof -
  have obj: "is_object two_defects"
    by (simp add: two_defects_def)
  have arr: "as_array (get_prop two_defects ''steps'') = Some two_defects_steps"
    by (simp add: two_defects_def)
  have s0: "validateStep (two_defects_steps ! 0) 0 AVAILABLE_TOOLS =
      [''Step 0: \"goto\" requires a non-empty \"url\" string'']"
    by (simp add: two_defects_steps_def validateStep_def AVAILABLE_TOOLS_def step_msg_def
        missing_or_blank_def show_nat_0)
  have s1: "validateStep (two_defects_steps ! Suc 0) (Suc 0) AVAILABLE_TOOLS =
      [''Step 1: \"type\" requires a \"value\" string'']"
    by (simp add: two_defects_steps_def validateStep_def AVAILABLE_TOOLS_def step_msg_def
        missing_or_blank_def not_a_string_def show_nat_Suc_0)
  have len: "[0..<length two_defects_steps] = [0, Suc 0]"
    by (simp add: two_defects_steps_def upt_rec)
  from validateActionPlan_accumulates [OF obj arr, of AVAILABLE_TOOLS] obj arr
  show ?thesis
    unfolding len by (simp add: s0 s1)
qed

text \<open>Every message of \<^verbatim>\<open>validateStep\<close> opens with the index it was given.\<close>

lemma if_within:
  "(c \<Longrightarrow> set a \<subseteq> A) \<Longrightarrow> (\<not> c \<Longrightarrow> set b \<subseteq> A) \<Longrightarrow> set (if c then a else b) \<subseteq> A"
  by simp

lemma append_within: "set a \<subseteq> A \<Longrightarrow> set b \<subseteq> A \<Longrightarrow> set (a @ b) \<subseteq> A"
  by simp

lemma single_within: "set [step_msg i m] \<subseteq> range (step_msg i)"
  by simp

lemma nil_within: "set [] \<subseteq> A"
  by simp

lemma validateStep_range: "set (validateStep step i tools) \<subseteq> range (step_msg i)"
proof (cases "as_string (get_prop step ''action'')")
  case None
  then show ?thesis
    unfolding validateStep_def by simp
next
  case (Some act)
  show ?thesis
    unfolding validateStep_def Some option.case
    by (intro if_within append_within single_within nil_within)
qed

lemma validateStep_step_msg:
  "e \<in> set (validateStep step i tools) \<Longrightarrow> \<exists>m. e = step_msg i m"
  using validateStep_range [of step i tools] by blast

lemma validateStep_prefixed:
  "e \<in> set (validateStep step i tools) \<Longrightarrow> \<exists>m. e = ''Step '' @ show_nat i @ '': '' @ m"
  using validateStep_step_msg [of e step i tools] by (auto simp: step_msg_def)

text \<open>
  For an enabled action of the schema, the \<^verbatim>\<open>switch\<close> of \<^verbatim>\<open>validateStep\<close> agrees with the field
  table: one message per violated required field, in the table's order.
\<close>

lemma validateStep_switch:
  assumes "as_string (get_prop step ''action'') = Some act" and "act \<in> set tools"
  shows "validateStep step i tools =
      (if act = ''goto'' then
         (if missing_or_blank (get_prop step ''url'')
          then [step_msg i ''\"goto\" requires a non-empty \"url\" string''] else [])
       else if act = ''clickText'' then
         (if missing_or_blank (get_prop step ''text'')
          then [step_msg i ''\"clickText\" requires a non-empty \"text\" string''] else [])
       else if act = ''type'' then
         (if missing_or_blank (get_prop step ''selector'')
          then [step_msg i ''\"type\" requires a non-empty \"selector\" string''] else [])
         @ (if not_a_string (get_prop step ''value'')
            then [step_msg i ''\"type\" requires a \"value\" string''] else [])
       else if act = ''waitForText'' then
         (if missing_or_blank (get_prop step ''text'')
          then [step_msg i ''\"waitForText\" requires a non-empty \"text\" string''] else [])
       else if act = ''extractText'' then
         (if missing_or_blank (get_prop step ''selector'')
          then [step_msg i ''\"extractText\" requires a non-empty \"selector\" string'']
          else [])
       else if act = ''snapshotText'' \<or> act = ''closeBrowser'' then []
       else if act = ''screenshot'' then
         (if missing_or_blank (get_prop step ''name'')
          then [step_msg i ''\"screenshot\" requires a non-empty \"name\" string''] else [])
       else [step_msg i (''unknown action \"'' @ act @ ''\"'')])"
proof -
  from assms(1) have "is_object step"
    by (cases step) simp_all
  with assms show ?thesis
    unfolding validateStep_def by simp
qed

lemma validateStep_fields:
  assumes "as_string (get_prop step ''action'') = Some act"
    and "act \<in> set tools" and "act \<in> set AVAILABLE_TOOLS"
  shows "validateStep step i tools =
           map (field_error i act) (filter (field_violated step) (required_fields act))"
proof -
  have known: "act = ''goto'' \<or> act = ''clickText'' \<or> act = ''type'' \<or> act = ''waitForText''
      \<or> act = ''extractText'' \<or> act = ''snapshotText'' \<or> act = ''screenshot''
      \<or> act = ''closeBrowser''"
    using assms(3) by (simp add: AVAILABLE_TOOLS_def)
  note sw = validateStep_switch [OF assms(1,2), of i]
  from known show ?thesis
  proof (elim disjE)
    assume "act = ''goto''"
    then show ?thesis unfolding sw
      by (simp add: required_fields_def field_violated_def field_error_def
          step_msg_def missing_or_blank_def split: option.splits)
  next
    assume "act = ''clickText''"
    then show ?thesis unfolding sw
      by (simp add: required_fields_def field_violated_def field_error_def
          step_msg_def missing_or_blank_def split: option.splits)
  next
    assume "act = ''type''"
    then show ?thesis unfolding sw
      by (simp add: required_fields_def field_violated_def field_error_def
          step_msg_def missing_or_blank_def not_a_string_def split: option.splits)
  next
    assume "act = ''waitForText''"
    then show ?thesis unfolding sw
      by (simp add: required_fields_def field_violated_def field_error_def
          step_msg_def missing_or_blank_def split: option.splits)
  next
    assume "act = ''extractText''"
    then show ?thesis unfolding sw
      by (simp add: required_fields_def field_violated_def field_error_def
          step_msg_def missing_or_blank_def split: option.splits)
  next
    assume "act = ''snapshotText''"
    then show ?thesis unfolding sw
      by (simp add: required_fields_def)
  next
    assume "act = ''screenshot''"
    then show ?thesis unfolding sw
      by (simp add: required_fields_def field_violated_def field_error_def
          step_msg_def missing_or_blank_def split: option.splits)
  next
    assume "act = ''closeBrowser''"
    then show ?thesis unfolding sw
      by (simp add: required_fields_def)
  qed
qed

text \<open>
  Claim C8, as amended. The two whole-plan rejections return a single message without a step
  index: \<^verbatim>\<open>Plan must be a JSON object\<close> when the input is not an object, \<^verbatim>\<open>"steps" must be an
  array\<close> when its \<^verbatim>\<open>steps\<close> field is not an array. In every other case each error string has
  the form \<^verbatim>\<open>Step <index>: <message>\<close>, where \<^verbatim>\<open><index>\<close> is the 0-based position of the step
  that produced it; and for a step whose action is enabled and in the schema, the errors are
  exactly one message per violated required field, each naming the step index, the action
  and the field.
\<close>

theorem validateActionPlan_error_pattern:
  "(\<not> is_object raw \<longrightarrow> errors (validateActionPlan raw tools) = [''Plan must be a JSON object''])
   \<and> (is_object raw \<and> as_array (get_prop raw ''steps'') = None \<longrightarrow>
        errors (validateActionPlan raw tools) = [''\"steps\" must be an array''])
   \<and> (\<forall>stepsArr. is_object raw \<and> as_array (get_prop raw ''steps'') = Some stepsArr \<longrightarrow>
        (\<forall>e \<in> set (errors (validateActionPlan raw tools)).
           \<exists>i<length stepsArr. \<exists>m. e = ''Step '' @ show_nat i @ '': '' @ m
              \<and> e \<in> set (validateStep (stepsArr ! i) i tools))
        \<and> (\<forall>i<length stepsArr. \<forall>act.
             as_string (get_prop (stepsArr ! i) ''action'') = Some act
               \<and> act \<in> set tools \<and> act \<in> set AVAILABLE_TOOLS \<longrightarrow>
             validateStep (stepsArr ! i) i tools =
               map (field_error i act)
                 (filter (field_violated (stepsArr ! i)) (required_fields act))))"
proof (intro conjI allI impI)
  assume "\<not> is_object raw"
  then show "errors (validateActionPlan raw tools) = [''Plan must be a JSON object'']"
    by (simp add: validateActionPlan_def)
next
  assume "is_object raw \<and> as_array (get_prop raw ''steps'') = None"
  then show "errors (validateActionPlan raw tools) = [''\"steps\" must be an array'']"
    by (simp add: validateActionPlan_def)
next
  fix stepsArr
  assume a: "is_object raw \<and> as_array (get_prop raw ''steps'') = Some stepsArr"
  show "\<forall>e \<in> set (errors (validateActionPlan raw tools)).
           \<exists>i<length stepsArr. \<exists>m. e = ''Step '' @ show_nat i @ '': '' @ m
              \<and> e \<in> set (validateStep (stepsArr ! i) i tools)"
  proof
    fix e
    assume "e \<in> set (errors (validateActionPlan raw tools))"
    with a obtain i where i: "i < length stepsArr" "e \<in> set (validateStep (stepsArr ! i) i tools)"
      by (auto simp: errors_of_array)
    from validateStep_prefixed [OF i(2)] i
    show "\<exists>i<length stepsArr. \<exists>m. e = ''Step '' @ show_nat i @ '': '' @ m
              \<and> e \<in> set (validateStep (stepsArr ! i) i tools)"
      by blast
  qed
next
  fix stepsArr i act
  assume "as_string (get_prop (stepsArr ! i) ''action'') = Some act
               \<and> act \<in> set tools \<and> act \<in> set AVAILABLE_TOOLS"
  then show "validateStep (stepsArr ! i) i tools =
               map (field_error i act)
                 (filter (field_violated (stepsArr ! i)) (required_fields act))"
    by (simp add: validateStep_fields)
qed

text \<open>
  The plan whose only step is a \<^verbatim>\<open>type\<close> without \<^verbatim>\<open>value\<close>: its one error names step 0 and the
  field \<^verbatim>\<open>value\<close>.
\<close>

theorem validateActionPlan_error_pattern_witness:
  "is_object type_without_value_plan
   \<and> as_array (get_prop type_without_value_plan ''steps'') = Some [type_without_value]
   \<and> as_string (get_prop type_without_value ''action'') = Some ''type''
   \<and> ''type'' \<in> set AVAILABLE_TOOLS
   \<and> validateStep type_without_value 0 AVAILABLE_TOOLS =
       [''Step 0: \"type\" requires a \"value\" string'']
   \<and> errors (validateActionPlan type_without_value_plan AVAILABLE_TOOLS) =
       [''Step 0: \"type\" requires a \"value\" string'']"
proof -
  have obj: "is_object type_without_value_plan"
    by (simp add: type_without_value_plan_def)
  have arr: "as_array (get_prop type_without_value_plan ''steps'') = Some [type_without_value]"
    by (simp add: type_without_value_plan_def)
  have act: "as_string (get_prop type_without_value ''action'') = Some ''type''"
    by (simp add: type_without_value_def)
  have tool: "''type'' \<in> set AVAILABLE_TOOLS"
    by (simp add: AVAILABLE_TOOLS_def)
  have viol: "filter (field_violated type_without_value) (required_fields ''type'')
      = [(''value'', False)]"
    by (simp add: required_fields_def field_violated_def type_without_value_def)
  from validateActionPlan_error_pattern [of type_without_value_plan AVAILABLE_TOOLS] obj arr
  have "\<forall>i<length [type_without_value]. \<forall>act.
             as_string (get_prop ([type_without_value] ! i) ''action'') = Some act
               \<and> act \<in> set AVAILABLE_TOOLS \<and> act \<in> set AVAILABLE_TOOLS \<longrightarrow>
             validateStep ([type_without_value] ! i) i AVAILABLE_TOOLS =
               map (field_error i act)
                 (filter (field_violated ([type_without_value] ! i)) (required_fields act))"
    by blast
  with act tool have "validateStep type_without_value 0 AVAILABLE_TOOLS =
      map (field_error 0 ''type'')
        (filter (field_violated type_without_value) (required_fields ''type''))"
    by simp
  then have step: "validateStep type_without_value 0 AVAILABLE_TOOLS =
      [''Step 0: \"type\" requires a \"value\" string'']"
    unfolding viol by (simp add: field_error_def show_nat_0)
  have "errors (validateActionPlan type_without_value_plan AVAILABLE_TOOLS) =
      validateStep type_without_value 0 AVAILABLE_TOOLS"
    using errors_of_array [OF obj arr, of AVAILABLE_TOOLS] by (simp add: upt_rec)
  with obj arr act tool step show ?thesis
    by simp
qed

text \<open>
  The claim as stated fails on an input that is not an object: the one error returned is
  \<^verbatim>\<open>Plan must be a JSON object\<close>, which does not open with \<^verbatim>\<open>Step\<close>.
\<close>

theorem validateActionPlan_error_pattern_counterexample:
  "errors (validateActionPlan (JStr ''not an object'') AVAILABLE_TOOLS) =
     [''Plan must be a JSON object'']
   \<and> take 5 ''Plan must be a JSON object'' \<noteq> ''Step ''"
  by (simp add: validateActionPlan_def)

subsection \<open>Disabled and unknown actions\<close>

lemma validateStep_not_enabled:
  assumes "as_string (get_prop step ''action'') = Some act" and "act \<notin> set tools"
  shows "validateStep step i tools =
           [''Step '' @ show_nat i @ '': action \"'' @ act @ ''\" is not in the enabled tools list'']"
proof -
  from assms(1) have "is_object step"
    by (cases step) simp_all
  with assms show ?thesis
    by (simp add: validateStep_def step_msg_def)
qed

lemma validateStep_unknown:
  assumes "as_string (get_prop step ''action'') = Some act" and "act \<in> set tools"
    and "act \<notin> set AVAILABLE_TOOLS"
  shows "validateStep step i tools = [''Step '' @ show_nat i @ '': unknown action \"'' @ act @ ''\"'']"
proof -
  from assms(1) have "is_object step"
    by (cases step) simp_all
  with assms show ?thesis
    by (simp add: validateStep_def step_msg_def AVAILABLE_TOOLS_def)
qed

lemma step_error_rejects:
  assumes "is_object raw" and "as_array (get_prop raw ''steps'') = Some stepsArr"
    and "i < length stepsArr" and "validateStep (stepsArr ! i) i tools \<noteq> []"
  shows "\<not> valid (validateActionPlan raw tools)"
proof -
  from assms(3,4) have "\<exists>j\<in>set [0..<length stepsArr]. validateStep (stepsArr ! j) j tools \<noteq> []"
    by auto
  then have "concat (map (\<lambda>i. validateStep (stepsArr ! i) i tools) [0..<length stepsArr]) \<noteq> []"
    by simp
  with errors_of_array [OF assms(1,2), of tools] show ?thesis
    by (simp add: valid_iff_no_errors)
qed

lemma disabled_inject:
  "(''Step '' @ show_nat i @ '': action \"'' @ a @ ''\" is not in the enabled tools list''
     = ''Step '' @ show_nat i @ '': action \"'' @ b @ ''\" is not in the enabled tools list'')
   = (a = b)"
  by simp

lemma unknown_inject:
  "(''Step '' @ show_nat i @ '': unknown action \"'' @ a @ ''\"''
     = ''Step '' @ show_nat i @ '': unknown action \"'' @ b @ ''\"'') = (a = b)"
  by simp

lemma field_error_not_disabled:
  "field_error i act f
     \<noteq> ''Step '' @ show_nat i @ '': action \"'' @ a @ ''\" is not in the enabled tools list''"
  by (simp add: field_error_def)

lemma field_error_not_unknown:
  "field_error i act f \<noteq> ''Step '' @ show_nat i @ '': unknown action \"'' @ a @ ''\"''"
  by (simp add: field_error_def)

lemma disabled_message_iff:
  assumes "as_string (get_prop step ''action'') = Some act"
  shows "(''Step '' @ show_nat i @ '': action \"'' @ a @ ''\" is not in the enabled tools list''
            \<in> set (validateStep step i tools)) = (a = act \<and> act \<notin> set tools)"
proof (cases "act \<in> set tools")
  case False
  from validateStep_not_enabled [OF assms False, of i] False show ?thesis
    by (simp only: list.set insert_iff empty_iff disabled_inject simp_thms)
next
  case True
  show ?thesis
  proof (cases "act \<in> set AVAILABLE_TOOLS")
    case False
    from validateStep_unknown [OF assms True False, of i] True show ?thesis
      by simp
  next
    case known: True
    have "x \<noteq> ''Step '' @ show_nat i @ '': action \"'' @ a @ ''\" is not in the enabled tools list''"
      if "x \<in> set (validateStep step i tools)" for x
      using that field_error_not_disabled [of i act _ a]
      unfolding validateStep_fields [OF assms True known] by auto
    with True show ?thesis by blast
  qed
qed

lemma unknown_message_iff:
  assumes "as_string (get_prop step ''action'') = Some act"
  shows "(''Step '' @ show_nat i @ '': unknown action \"'' @ a @ ''\"''
            \<in> set (validateStep step i tools))
         = (a = act \<and> act \<in> set tools \<and> act \<notin> set AVAILABLE_TOOLS)"
proof (cases "act \<in> set tools")
  case False
  from validateStep_not_enabled [OF assms False, of i] False show ?thesis
    by simp
next
  case True
  show ?thesis
  proof (cases "act \<in> set AVAILABLE_TOOLS")
    case False
    from validateStep_unknown [OF assms True False, of i] True False show ?thesis
      by (simp only: list.set insert_iff empty_iff unknown_inject simp_thms)
  next
    case known: True
    have "x \<noteq> ''Step '' @ show_nat i @ '': unknown action \"'' @ a @ ''\"''"
      if "x \<in> set (validateStep step i tools)" for x
      using that field_error_not_unknown [of i act _ a]
      unfolding validateStep_fields [OF assms True known] by auto
    with known show ?thesis by blast
  qed
qed

text \<open>
  Claim C6, as amended. The allow-list is checked before the schema. For a step whose action
  is a string \<^verbatim>\<open>X\<close>: if \<^verbatim>\<open>X\<close> is not in the caller's allow-list, the one error is
  \<^verbatim>\<open>action "X" is not in the enabled tools list\<close>, whether or not \<^verbatim>\<open>X\<close> is an action of the schema;
  if the allow-list contains \<^verbatim>\<open>X\<close> and the schema does not, the one error is
  \<^verbatim>\<open>unknown action "X"\<close>. Conversely the ``not enabled'' message occurs among the errors of a
  step only for its own action and only when the allow-list lacks it, and the ``unknown
  action'' message only for its own action and only when the allow-list has it and the schema
  does not. For one step index the two messages are never equal, and in both cases the plan
  is rejected.
\<close>

theorem validateStep_disabled_or_unknown:
  assumes "as_string (get_prop step ''action'') = Some act"
  shows "(act \<notin> set tools \<longrightarrow>
            validateStep step i tools =
              [''Step '' @ show_nat i @ '': action \"'' @ act @ ''\" is not in the enabled tools list''])
       \<and> (act \<in> set tools \<and> act \<notin> set AVAILABLE_TOOLS \<longrightarrow>
            validateStep step i tools =
              [''Step '' @ show_nat i @ '': unknown action \"'' @ act @ ''\"''])
       \<and> (\<forall>a. (''Step '' @ show_nat i @ '': action \"'' @ a @ ''\" is not in the enabled tools list''
                 \<in> set (validateStep step i tools))
              = (a = act \<and> act \<notin> set tools))
       \<and> (\<forall>a. (''Step '' @ show_nat i @ '': unknown action \"'' @ a @ ''\"''
                 \<in> set (validateStep step i tools))
              = (a = act \<and> act \<in> set tools \<and> act \<notin> set AVAILABLE_TOOLS))
       \<and> (\<forall>a b. ''Step '' @ show_nat i @ '': action \"'' @ a @ ''\" is not in the enabled tools list''
              \<noteq> ''Step '' @ show_nat i @ '': unknown action \"'' @ b @ ''\"'')
       \<and> (\<forall>raw stepsArr. (act \<notin> set tools \<or> act \<notin> set AVAILABLE_TOOLS) \<and> is_object raw
              \<and> as_array (get_prop raw ''steps'') = Some stepsArr
              \<and> i < length stepsArr \<and> stepsArr ! i = step \<longrightarrow>
            \<not> valid (validateActionPlan raw tools))"
proof (intro conjI allI impI)
  assume "act \<notin> set tools"
  with assms show "validateStep step i tools =
      [''Step '' @ show_nat i @ '': action \"'' @ act @ ''\" is not in the enabled tools list'']"
    by (rule validateStep_not_enabled)
next
  assume "act \<in> set tools \<and> act \<notin> set AVAILABLE_TOOLS"
  with assms show "validateStep step i tools =
      [''Step '' @ show_nat i @ '': unknown action \"'' @ act @ ''\"'']"
    by (simp add: validateStep_unknown)
next
  fix a
  show "(''Step '' @ show_nat i @ '': action \"'' @ a @ ''\" is not in the enabled tools list''
                 \<in> set (validateStep step i tools))
              = (a = act \<and> act \<notin> set tools)"
    using assms by (rule disabled_message_iff)
next
  fix a
  show "(''Step '' @ show_nat i @ '': unknown action \"'' @ a @ ''\"''
                 \<in> set (validateStep step i tools))
              = (a = act \<and> act \<in> set tools \<and> act \<notin> set AVAILABLE_TOOLS)"
    using assms by (rule unknown_message_iff)
next
  fix a b
  show "''Step '' @ show_nat i @ '': action \"'' @ a @ ''\" is not in the enabled tools list''
              \<noteq> ''Step '' @ show_nat i @ '': unknown action \"'' @ b @ ''\"''"
    by simp
next
  fix raw stepsArr
  assume a: "(act \<notin> set tools \<or> act \<notin> set AVAILABLE_TOOLS) \<and> is_object raw
              \<and> as_array (get_prop raw ''steps'') = Some stepsArr
              \<and> i < length stepsArr \<and> stepsArr ! i = step"
  then have "validateStep (stepsArr ! i) i tools \<noteq> []"
    using assms by (cases "act \<in> set tools") (simp_all add: validateStep_not_enabled validateStep_unknown)
  with a show "\<not> valid (validateActionPlan raw tools)"
    by (blast intro: step_error_rejects [THEN notE])
qed

text \<open>
  With the allow-list \<^verbatim>\<open>['deleteEverything']\<close> the action outside the schema is reported as
  unknown; with the allow-list \<^verbatim>\<open>['clickText']\<close> the schema action \<^verbatim>\<open>goto\<close> is reported as not
  enabled; with the full allow-list the same \<^verbatim>\<open>goto\<close> step gets neither message.
\<close>

theorem validateStep_disabled_or_unknown_witness:
  "as_string (get_prop unknown_json ''action'') = Some ''deleteEverything''
   \<and> ''deleteEverything'' \<in> set [''deleteEverything'']
   \<and> ''deleteEverything'' \<notin> set AVAILABLE_TOOLS
   \<and> validateStep unknown_json 0 [''deleteEverything''] =
       [''Step 0: unknown action \"deleteEverything\"'']
   \<and> as_string (get_prop goto_json ''action'') = Some ''goto''
   \<and> ''goto'' \<notin> set [''clickText'']
   \<and> validateStep goto_json 0 [''clickText''] =
       [''Step 0: action \"goto\" is not in the enabled tools list'']
   \<and> ''goto'' \<in> set AVAILABLE_TOOLS
   \<and> ''Step 0: unknown action \"goto\"'' \<notin> set (validateStep goto_json 0 AVAILABLE_TOOLS)
   \<and> ''Step 0: action \"goto\" is not in the enabled tools list''
        \<notin> set (validateStep goto_json 0 AVAILABLE_TOOLS)"
proof -
  have u: "as_string (get_prop unknown_json ''action'') = Some ''deleteEverything''"
    by (simp add: unknown_json_def)
  have g: "as_string (get_prop goto_json ''action'') = Some ''goto''"
    by (simp add: goto_json_def)
  have n: "''deleteEverything'' \<notin> set AVAILABLE_TOOLS"
    by (simp add: AVAILABLE_TOOLS_def)
  have k: "''goto'' \<in> set AVAILABLE_TOOLS"
    by (simp add: AVAILABLE_TOOLS_def)
  from validateStep_disabled_or_unknown [OF u, of "[''deleteEverything'']" 0]
  have "''deleteEverything'' \<in> set [''deleteEverything'']
      \<and> ''deleteEverything'' \<notin> set AVAILABLE_TOOLS \<longrightarrow>
    validateStep unknown_json 0 [''deleteEverything''] =
       [''Step '' @ show_nat 0 @ '': unknown action \"'' @ ''deleteEverything'' @ ''\"'']"
    by blast
  with n have 1: "validateStep unknown_json 0 [''deleteEverything''] =
       [''Step 0: unknown action \"deleteEverything\"'']"
    by (simp add: show_nat_0)
  from validateStep_disabled_or_unknown [OF g, of "[''clickText'']" 0]
  have "''goto'' \<notin> set [''clickText''] \<longrightarrow>
    validateStep goto_json 0 [''clickText''] =
       [''Step '' @ show_nat 0 @ '': action \"'' @ ''goto'' @ ''\" is not in the enabled tools list'']"
    by blast
  then have 2: "validateStep goto_json 0 [''clickText''] =
       [''Step 0: action \"goto\" is not in the enabled tools list'']"
    by (simp add: show_nat_0)
  from validateStep_disabled_or_unknown [OF g, of AVAILABLE_TOOLS 0]
  have "(''Step '' @ show_nat 0 @ '': unknown action \"'' @ ''goto'' @ ''\"''
            \<in> set (validateStep goto_json 0 AVAILABLE_TOOLS))
          = (''goto'' = ''goto'' \<and> ''goto'' \<in> set AVAILABLE_TOOLS \<and> ''goto'' \<notin> set AVAILABLE_TOOLS)"
    and "(''Step '' @ show_nat 0 @ '': action \"'' @ ''goto'' @ ''\" is not in the enabled tools list''
            \<in> set (validateStep goto_json 0 AVAILABLE_TOOLS))
          = (''goto'' = ''goto'' \<and> ''goto'' \<notin> set AVAILABLE_TOOLS)"
    by blast+
  with k have 3: "''Step 0: unknown action \"goto\"'' \<notin> set (validateStep goto_json 0 AVAILABLE_TOOLS)"
    and 4: "''Step 0: action \"goto\" is not in the enabled tools list''
        \<notin> set (validateStep goto_json 0 AVAILABLE_TOOLS)"
    by (simp_all add: show_nat_0)
  from u g n k 1 2 3 4 show ?thesis by simp
qed

text \<open>
  The claim as stated fails under the full allow-list: the action \<^verbatim>\<open>deleteEverything\<close>, which
  is not in the schema at all, is reported with the same ``not in the enabled tools list''
  wording as a disabled schema action, and not as an unknown action.
\<close>

theorem validateStep_disabled_or_unknown_counterexample:
  "as_string (get_prop unknown_json ''action'') = Some ''deleteEverything''
   \<and> ''deleteEverything'' \<notin> set AVAILABLE_TOOLS
   \<and> validateStep unknown_json 0 AVAILABLE_TOOLS =
       [''Step 0: action \"deleteEverything\" is not in the enabled tools list'']
   \<and> validateStep goto_json 0 [''clickText''] =
       [''Step 0: action \"goto\" is not in the enabled tools list'']
   \<and> ''Step 0: action \"deleteEverything\" is not in the enabled tools list''
        \<noteq> ''Step 0: unknown action \"deleteEverything\"''"
proof -
  have u: "as_string (get_prop unknown_json ''action'') = Some ''deleteEverything''"
    by (simp add: unknown_json_def)
  have g: "as_string (get_prop goto_json ''action'') = Some ''goto''"
    by (simp add: goto_json_def)
  have n: "''deleteEverything'' \<notin> set AVAILABLE_TOOLS"
    by (simp add: AVAILABLE_TOOLS_def)
  from validateStep_not_enabled [OF u n, of 0] validateStep_not_enabled [OF g, of "[''clickText'']" 0] u n
  show ?thesis
    by (simp add: show_nat_0)
qed

section \<open>Properties of the runner\<close>

subsection \<open>The step loop\<close>

lemma step_loop_acc:
  "step_loop w ss acc h = (acc @ fst (step_loop w ss [] h), snd (step_loop w ss [] h))"
proof (induction ss arbitrary: acc h)
  case Nil
  show ?case by simp
next
  case (Cons s ss)
  show ?case
  proof (cases "action s = ''closeBrowser''")
    case True
    then show ?thesis by simp
  next
    case False
    let ?r = "fst (executeStep w s h)" and ?h = "snd (executeStep w s h)"
    have "step_loop w (s # ss) acc h = step_loop w ss (acc @ [?r]) ?h"
      using False by simp
    also have "\<dots> = ((acc @ [?r]) @ fst (step_loop w ss [] ?h), snd (step_loop w ss [] ?h))"
      by (rule Cons.IH)
    finally have l: "step_loop w (s # ss) acc h
        = (acc @ ?r # fst (step_loop w ss [] ?h), snd (step_loop w ss [] ?h))"
      by simp
    have "step_loop w (s # ss) [] h = step_loop w ss [?r] ?h"
      using False by simp
    also have "\<dots> = ([?r] @ fst (step_loop w ss [] ?h), snd (step_loop w ss [] ?h))"
      by (rule Cons.IH)
    finally have r: "step_loop w (s # ss) [] h
        = (?r # fst (step_loop w ss [] ?h), snd (step_loop w ss [] ?h))"
      by simp
    show ?thesis unfolding l r by simp
  qed
qed

lemma step_loop_Cons:
  "step_loop w (s # ss) [] h =
     (if action s = ''closeBrowser''
      then ([fst (executeStep w s h)], snd (executeStep w s h))
      else (fst (executeStep w s h) # fst (step_loop w ss [] (snd (executeStep w s h))),
            snd (step_loop w ss [] (snd (executeStep w s h)))))"
  using step_loop_acc [of w ss "[fst (executeStep w s h)]" "snd (executeStep w s h)"]
  by simp

declare step_loop.simps(2) [simp del]

lemma attempted_0: "attempted ss 0"
  by (simp add: attempted_def)

lemma attempted_Suc:
  "attempted (s # ss) (Suc i) = (action s \<noteq> ''closeBrowser'' \<and> attempted ss i)"
  by (simp add: attempted_def)

lemma step_loop_attempted:
  "i < length ss \<Longrightarrow> attempted ss i = (i < length (fst (step_loop w ss [] h)))"
proof (induction ss arbitrary: i h)
  case Nil
  then show ?case by simp
next
  case (Cons s ss)
  show ?case
  proof (cases i)
    case 0
    then show ?thesis by (simp add: attempted_0 step_loop_Cons)
  next
    case (Suc j)
    with Cons.prems have "j < length ss" by simp
    from Cons.IH [OF this] Suc show ?thesis
      by (simp add: attempted_Suc step_loop_Cons)
  qed
qed

lemma step_loop_length: "length (fst (step_loop w ss [] h)) \<le> length ss"
  by (induction ss arbitrary: h) (simp_all add: step_loop_Cons)

lemma step_loop_nth:
  "i < length (fst (step_loop w ss [] h)) \<Longrightarrow>
     \<exists>h'. fst (step_loop w ss [] h) ! i = fst (executeStep w (ss ! i) h')"
proof (induction ss arbitrary: i h)
  case Nil
  then show ?case by simp
next
  case (Cons s ss)
  show ?case
  proof (cases i)
    case 0
    then show ?thesis by (auto simp: step_loop_Cons)
  next
    case (Suc j)
    with Cons.prems have nc: "action s \<noteq> ''closeBrowser''"
      and "j < length (fst (step_loop w ss [] (snd (executeStep w s h))))"
      by (simp_all add: step_loop_Cons split: if_splits)
    from Cons.IH [OF this(2)] Suc nc show ?thesis
      by (simp add: step_loop_Cons)
  qed
qed

lemma await_void_action [simp]: "result_action (fst (await_void w s c h)) = action s"
  by (simp add: await_void_def succeeded_def failed_def split: reply.splits)

lemma await_text_action [simp]: "result_action (fst (await_text w s c h)) = action s"
  by (simp add: await_text_def succeeded_def failed_def split: reply.splits)

lemma succeeded_action [simp]: "result_action (succeeded s d) = action s"
  by (simp add: succeeded_def)

lemma failed_action [simp]: "result_action (failed s m) = action s"
  by (simp add: failed_def)

lemma executeStep_action: "result_action (fst (executeStep w s h)) = action s"
  unfolding executeStep_def
  by (simp split: option.splits sum.splits reply.splits)

lemma executeStep_goto:
  "action s = ''goto'' \<Longrightarrow> executeStep w s h =
       (case url s of
          None \<Rightarrow> (failed s ''\"url\" is required for goto'', h)
        | Some u \<Rightarrow>
            if u = [] then (failed s ''\"url\" is required for goto'', h)
            else (case new_URL w u of
                Inr protocol \<Rightarrow>
                  if protocol \<noteq> ''http:'' \<and> protocol \<noteq> ''https:'' then
                    (failed s
                       (''Only http and https URLs are allowed, got \"'' @ protocol @ ''\"''), h)
                  else await_void w s (Goto u) h
              | Inl msg \<Rightarrow> (failed s (''Invalid URL: \"'' @ u @ ''\" - '' @ msg), h)))"
  by (simp add: executeStep_def)

lemma executeStep_screenshot:
  "action s = ''screenshot'' \<Longrightarrow> executeStep w s h =
       (case name s of
          None \<Rightarrow> (failed s basename_type_error, h)
        | Some n \<Rightarrow>
            (case respond w h (Screenshot (screenshotPath w n)) of
               Returns v \<Rightarrow>
                 (succeeded s (Some (screenshotPath w n)), h @ [Screenshot (screenshotPath w n)])
             | Throws m \<Rightarrow> (failed s m, h @ [Screenshot (screenshotPath w n)])))"
  by (simp add: executeStep_def)

lemma executeStep_closeBrowser:
  "action s = ''closeBrowser'' \<Longrightarrow> executeStep w s h = (succeeded s None, h)"
  by (simp add: executeStep_def)

lemma init_ok_try_block:
  "init_error w h = None \<Longrightarrow>
     try_block w pl h =
       (None, fst (step_loop w (steps pl) [] (h @ [Launch, NewContext, NewPage])), True,
        snd (step_loop w (steps pl) [] (h @ [Launch, NewContext, NewPage])))"
  by (simp add: init_error_def try_block_def split: reply.splits prod.splits)

lemma init_ok_results:
  "init_error w h = None \<Longrightarrow>
     fst (executePlan w pl h) = fst (step_loop w (steps pl) [] (h @ [Launch, NewContext, NewPage]))"
  by (simp add: executePlan_def init_ok_try_block)

text \<open>The loop executes the steps at the attempted positions, and nothing else.\<close>

lemma attempted_steps_Nil: "attempted_steps [] = []"
  by (simp add: attempted_steps_def)

lemma attempted_steps_Cons:
  "attempted_steps (s # ss) =
     s # (if action s = ''closeBrowser'' then [] else attempted_steps ss)"
proof -
  have "[0..<Suc (length ss)] = 0 # [Suc 0..<Suc (length ss)]"
    by (rule upt_conv_Cons) simp
  then have idx: "[0..<length (s # ss)] = 0 # map Suc [0..<length ss]"
    by (simp only: map_Suc_upt list.size(4) One_nat_def add_Suc_right add_0_right)
  have sel: "filter (attempted (s # ss)) (map Suc [0..<length ss]) =
      map Suc (filter (\<lambda>i. action s \<noteq> ''closeBrowser'' \<and> attempted ss i) [0..<length ss])"
    by (simp add: filter_map comp_def attempted_Suc)
  show ?thesis
  proof (cases "action s = ''closeBrowser''")
    case True
    then show ?thesis
      unfolding attempted_steps_def idx by (simp add: attempted_0 sel)
  next
    case False
    then show ?thesis
      unfolding attempted_steps_def idx by (simp add: attempted_0 sel comp_def)
  qed
qed

lemma step_loop_run_each: "step_loop w ss [] h = run_each w (attempted_steps ss) h"
proof (induction ss arbitrary: h)
  case Nil
  show ?case by (simp add: attempted_steps_Nil)
next
  case (Cons s ss)
  show ?case
    by (simp add: step_loop_Cons attempted_steps_Cons Cons.IH)
qed

lemma init_ok_executePlan:
  assumes "init_error w h = None"
  shows "executePlan w pl h =
     (fst (run_each w (attempted_steps (steps pl)) (h @ [Launch, NewContext, NewPage])),
      snd (run_each w (attempted_steps (steps pl)) (h @ [Launch, NewContext, NewPage])) @ [Close])"
  by (simp add: executePlan_def init_ok_try_block [OF assms] finally_block_def step_loop_run_each
      split: reply.split)

text \<open>
  Claim C1. When the session initialisation succeeds, \<^verbatim>\<open>executePlan\<close> returns one result per
  attempted step, in plan order: a position of the plan has a result exactly when no earlier
  step is a \<^verbatim>\<open>closeBrowser\<close>, the result at position \<open>i\<close> is what \<^verbatim>\<open>executeStep\<close> returned for
  step \<open>i\<close> and carries that step's action, and the result of a \<^verbatim>\<open>closeBrowser\<close> step is a
  success without data. Steps that are not attempted are not executed at all: the results
  and the calls of the run are exactly those of executing the attempted steps one after the
  other on the fresh page, followed by the close of the browser.
\<close>

theorem executePlan_one_result_per_attempted_step:
  assumes "init_error w h = None"
  shows "length (fst (executePlan w pl h)) \<le> length (steps pl)
    \<and> (\<forall>i<length (steps pl). attempted (steps pl) i = (i < length (fst (executePlan w pl h))))
    \<and> (\<forall>i<length (fst (executePlan w pl h)).
          result_action (fst (executePlan w pl h) ! i) = action (steps pl ! i)
          \<and> (\<exists>h'. fst (executePlan w pl h) ! i = fst (executeStep w (steps pl ! i) h'))
          \<and> (action (steps pl ! i) = ''closeBrowser'' \<longrightarrow>
               fst (executePlan w pl h) ! i =
                 \<lparr>result_action = ''closeBrowser'', success = True, data = None, error = None\<rparr>))
    \<and> executePlan w pl h =
         (fst (run_each w (attempted_steps (steps pl)) (h @ [Launch, NewContext, NewPage])),
          snd (run_each w (attempted_steps (steps pl)) (h @ [Launch, NewContext, NewPage]))
            @ [Close])"
proof -
  let ?rs = "fst (step_loop w (steps pl) [] (h @ [Launch, NewContext, NewPage]))"
  have rs: "fst (executePlan w pl h) = ?rs"
    using assms by (rule init_ok_results)
  have "length ?rs \<le> length (steps pl)"
    by (rule step_loop_length)
  moreover have "\<forall>i<length (steps pl). attempted (steps pl) i = (i < length ?rs)"
    by (simp add: step_loop_attempted)
  moreover have "\<forall>i<length ?rs. result_action (?rs ! i) = action (steps pl ! i)
          \<and> (\<exists>h'. ?rs ! i = fst (executeStep w (steps pl ! i) h'))
          \<and> (action (steps pl ! i) = ''closeBrowser'' \<longrightarrow>
               ?rs ! i = \<lparr>result_action = ''closeBrowser'', success = True, data = None, error = None\<rparr>)"
  proof (intro allI impI)
    fix i assume "i < length ?rs"
    from step_loop_nth [OF this] obtain h' where
      h': "?rs ! i = fst (executeStep w (steps pl ! i) h')" ..
    then show "result_action (?rs ! i) = action (steps pl ! i)
          \<and> (\<exists>h'. ?rs ! i = fst (executeStep w (steps pl ! i) h'))
          \<and> (action (steps pl ! i) = ''closeBrowser'' \<longrightarrow>
               ?rs ! i = \<lparr>result_action = ''closeBrowser'', success = True, data = None, error = None\<rparr>)"
      by (auto simp: executeStep_action executeStep_closeBrowser succeeded_def)
  qed
  ultimately have "length (fst (executePlan w pl h)) \<le> length (steps pl)
    \<and> (\<forall>i<length (steps pl). attempted (steps pl) i = (i < length (fst (executePlan w pl h))))
    \<and> (\<forall>i<length (fst (executePlan w pl h)).
          result_action (fst (executePlan w pl h) ! i) = action (steps pl ! i)
          \<and> (\<exists>h'. fst (executePlan w pl h) ! i = fst (executeStep w (steps pl ! i) h'))
          \<and> (action (steps pl ! i) = ''closeBrowser'' \<longrightarrow>
               fst (executePlan w pl h) ! i =
                 \<lparr>result_action = ''closeBrowser'', success = True, data = None, error = None\<rparr>))"
    unfolding rs by blast
  with init_ok_executePlan [OF assms, of pl] show ?thesis
    by blast
qed

text \<open>
  On the sample platform the plan navigate, close session, screenshot yields exactly two
  results; position 1 is attempted, position 2 (the screenshot) is not, and the calls made
  are the set-up, the navigation and the close: no screenshot is taken.
\<close>

lemma sample_https: "sample_new_URL ''https://example.com'' = Inr ''https:''"
  by (simp add: sample_new_URL_def sample_urls_def)

lemma sample_loop:
 "step_loop sample_world (steps goto_close_shot) [] [Launch, NewContext, NewPage] =
     ([\<lparr>result_action = ''goto'', success = True, data = None, error = None\<rparr>,
       \<lparr>result_action = ''closeBrowser'', success = True, data = None, error = None\<rparr>],
      [Launch, NewContext, NewPage, Goto ''https://example.com''])"
  by (simp add: goto_close_shot_def bare_step_def step_loop_Cons executeStep_goto executeStep_closeBrowser
     sample_world_def sample_https await_void_def succeeded_def)

lemma sample_run:
 "executePlan sample_world goto_close_shot [] =
     ([\<lparr>result_action = ''goto'', success = True, data = None, error = None\<rparr>,
       \<lparr>result_action = ''closeBrowser'', success = True, data = None, error = None\<rparr>],
      [Launch, NewContext, NewPage, Goto ''https://example.com'', Close])"
  using sample_loop
  by (simp add: executePlan_def try_block_def finally_block_def sample_world_def)

lemma sample_attempted:
  "attempted_steps (steps goto_close_shot) =
     [goto_step ''https://example.com'', bare_step ''closeBrowser'']"
  by (simp add: goto_close_shot_def attempted_steps_Cons goto_step_def bare_step_def)

theorem executePlan_one_result_per_attempted_step_witness:
  "init_error sample_world [] = None
   \<and> fst (executePlan sample_world goto_close_shot []) =
       [\<lparr>result_action = ''goto'', success = True, data = None, error = None\<rparr>,
        \<lparr>result_action = ''closeBrowser'', success = True, data = None, error = None\<rparr>]
   \<and> attempted (steps goto_close_shot) 1 \<and> \<not> attempted (steps goto_close_shot) 2
   \<and> attempted_steps (steps goto_close_shot) =
       [goto_step ''https://example.com'', bare_step ''closeBrowser'']
   \<and> snd (executePlan sample_world goto_close_shot []) =
       [Launch, NewContext, NewPage, Goto ''https://example.com'', Close]
   \<and> snd (run_each sample_world [goto_step ''https://example.com'', bare_step ''closeBrowser'']
          [Launch, NewContext, NewPage]) =
       [Launch, NewContext, NewPage, Goto ''https://example.com'']"
proof -
  have ok: "init_error sample_world [] = None"
    by (simp add: init_error_def sample_world_def)
  have len: "length (fst (executePlan sample_world goto_close_shot [])) = 2"
    by (simp add: sample_run)
  note run = executePlan_one_result_per_attempted_step [OF ok, of goto_close_shot]
  from run have "\<forall>i<length (steps goto_close_shot). attempted (steps goto_close_shot) i = (i < 2)"
    unfolding len by blast
  then have att: "attempted (steps goto_close_shot) 1 \<and> \<not> attempted (steps goto_close_shot) 2"
    by (simp add: goto_close_shot_def)
  from run have "snd (executePlan sample_world goto_close_shot []) =
      snd (run_each sample_world (attempted_steps (steps goto_close_shot))
            ([] @ [Launch, NewContext, NewPage])) @ [Close]"
    by (simp add: prod_eq_iff)
  then have "snd (run_each sample_world [goto_step ''https://example.com'', bare_step ''closeBrowser'']
          [Launch, NewContext, NewPage]) @ [Close] =
       [Launch, NewContext, NewPage, Goto ''https://example.com'', Close]"
    by (simp add: sample_attempted sample_run)
  then have "snd (run_each sample_world [goto_step ''https://example.com'', bare_step ''closeBrowser'']
          [Launch, NewContext, NewPage]) =
       [Launch, NewContext, NewPage, Goto ''https://example.com'']"
    by (simp only: append_eq_append_conv2 [of _ "[Close]"] snoc_eq_iff_butlast) simp
  with ok att sample_attempted sample_run show ?thesis by simp
qed

subsection \<open>The branches of \<^verbatim>\<open>executeStep\<close>\<close>

lemma executeStep_clickText:
  "action s = ''clickText'' \<Longrightarrow> executeStep w s h = await_void w s (ClickText (text_field s)) h"
  by (simp add: executeStep_def)

lemma executeStep_type:
  "action s = ''type'' \<Longrightarrow>
     executeStep w s h = await_void w s (Fill (selector s) (value_field s)) h"
  by (simp add: executeStep_def)

lemma executeStep_waitForText:
  "action s = ''waitForText'' \<Longrightarrow>
     executeStep w s h = await_void w s (WaitForText (text_field s)) h"
  by (simp add: executeStep_def)

lemma executeStep_extractText:
  "action s = ''extractText'' \<Longrightarrow> executeStep w s h = await_text w s (InnerText (selector s)) h"
  by (simp add: executeStep_def)

lemma executeStep_snapshotText:
  "action s = ''snapshotText'' \<Longrightarrow> executeStep w s h = await_text w s BodyInnerText h"
  by (simp add: executeStep_def)

lemma executeStep_unknown:
  "action s \<notin> set AVAILABLE_TOOLS \<Longrightarrow>
     executeStep w s h = (failed s (''Unknown action: '' @ action s), h)"
  by (simp add: executeStep_def AVAILABLE_TOOLS_def)

lemma executeStep_cases [case_names goto clickText type waitForText extractText snapshotText
    screenshot closeBrowser unknown]:
  assumes "action s = ''goto'' \<Longrightarrow> P"
    and "action s = ''clickText'' \<Longrightarrow> P"
    and "action s = ''type'' \<Longrightarrow> P"
    and "action s = ''waitForText'' \<Longrightarrow> P"
    and "action s = ''extractText'' \<Longrightarrow> P"
    and "action s = ''snapshotText'' \<Longrightarrow> P"
    and "action s = ''screenshot'' \<Longrightarrow> P"
    and "action s = ''closeBrowser'' \<Longrightarrow> P"
    and "action s \<notin> set AVAILABLE_TOOLS \<Longrightarrow> P"
  shows P
proof (cases "action s \<in> set AVAILABLE_TOOLS")
  case False
  then show ?thesis by (rule assms(9))
next
  case True
  then have "action s = ''goto'' \<or> action s = ''clickText'' \<or> action s = ''type''
      \<or> action s = ''waitForText'' \<or> action s = ''extractText'' \<or> action s = ''snapshotText''
      \<or> action s = ''screenshot'' \<or> action s = ''closeBrowser''"
    by (simp add: AVAILABLE_TOOLS_def)
  then show ?thesis
    by (elim disjE) (erule assms)+
qed


lemmas executeStep_branch =
  executeStep_goto executeStep_clickText executeStep_type executeStep_waitForText
  executeStep_extractText executeStep_snapshotText executeStep_screenshot
  executeStep_closeBrowser executeStep_unknown

subsection \<open>Session set-up and teardown\<close>

lemma finally_block_eq: "finally_block w b h = (if b then h @ [Close] else h)"
  by (simp add: finally_block_def split: reply.splits)

lemma init_failed_try_block:
  assumes "init_error w h = Some m"
  shows "try_block w pl h = (Some m, [], False, h @ [Launch])
       \<or> try_block w pl h = (Some m, [], True, h @ [Launch, NewContext])
       \<or> try_block w pl h = (Some m, [], True, h @ [Launch, NewContext, NewPage])"
  using assms
  by (simp add: init_error_def try_block_def split: reply.splits)


text \<open>
  Claim C4. If creating the browser, its context or the page throws, \<^verbatim>\<open>executePlan\<close> returns
  exactly one result: it is tagged \<^verbatim>\<open>browser-init\<close>, a name outside the schema, has success
  false and carries the thrown message. No step is attempted: the only calls made are the
  set-up calls up to the failing one and, once the browser exists, its close. The function
  returns this list; nothing is thrown to the caller.
\<close>

theorem executePlan_init_failure:
  assumes "init_error w h = Some m"
  shows "fst (executePlan w pl h) =
           [\<lparr>result_action = ''browser-init'', success = False, data = None, error = Some m\<rparr>]
       \<and> snd (executePlan w pl h) \<in>
           {h @ [Launch], h @ [Launch, NewContext, Close], h @ [Launch, NewContext, NewPage, Close]}
       \<and> ''browser-init'' \<notin> set AVAILABLE_TOOLS"
proof -
  have "''browser-init'' \<notin> set AVAILABLE_TOOLS"
    by (simp add: AVAILABLE_TOOLS_def)
  moreover from init_failed_try_block [OF assms, of pl]
  have "fst (executePlan w pl h) = [browser_init m]
       \<and> snd (executePlan w pl h) \<in>
           {h @ [Launch], h @ [Launch, NewContext, Close], h @ [Launch, NewContext, NewPage, Close]}"
    by (elim disjE) (simp_all add: executePlan_def finally_block_eq)
  ultimately show ?thesis
    by (simp add: browser_init_def)
qed

text \<open>A browser that cannot be launched: one \<^verbatim>\<open>browser-init\<close> result, and only the launch was called.\<close>

theorem executePlan_init_failure_witness:
  "init_error (throwing_at Launch ''no browser'') [] = Some ''no browser''
   \<and> executePlan (throwing_at Launch ''no browser'') goto_close_shot [] =
       ([\<lparr>result_action = ''browser-init'', success = False, data = None,
          error = Some ''no browser''\<rparr>], [Launch])"
proof -
  have e: "init_error (throwing_at Launch ''no browser'') [] = Some ''no browser''"
    by (simp add: init_error_def throwing_at_def)
  have "snd (executePlan (throwing_at Launch ''no browser'') goto_close_shot []) = [Launch]"
    by (simp add: executePlan_def try_block_def throwing_at_def finally_block_eq)
  with executePlan_init_failure [OF e, of goto_close_shot] e show ?thesis
    by (simp add: prod_eq_iff)
qed

text \<open>Two worlds that differ at most in how the browser answers \<open>Close\<close>.\<close>

lemma await_void_agree:
  "c \<noteq> Close \<Longrightarrow> \<forall>h c. c \<noteq> Close \<longrightarrow> respond w' h c = respond w h c \<Longrightarrow>
     await_void w' s c h = await_void w s c h"
  by (simp add: await_void_def)

lemma await_text_agree:
  "c \<noteq> Close \<Longrightarrow> \<forall>h c. c \<noteq> Close \<longrightarrow> respond w' h c = respond w h c \<Longrightarrow>
     await_text w' s c h = await_text w s c h"
  by (simp add: await_text_def)

lemma executeStep_agree:
  assumes r: "\<forall>h c. c \<noteq> Close \<longrightarrow> respond w' h c = respond w h c"
    and u: "new_URL w' = new_URL w"
    and t: "os_tmpdir w' = os_tmpdir w"
    and j: "path_join w' = path_join w"
  shows "executeStep w' s h = executeStep w s h"
proof (rule executeStep_cases [of s])
  assume a: "action s = ''goto''"
  show ?thesis
    unfolding executeStep_goto [OF a] u
    by (simp add: await_void_agree [OF _ r] split: option.split sum.split)
next
  assume a: "action s = ''screenshot''"
  have p: "screenshotPath w' = screenshotPath w"
    by (rule ext) (simp add: screenshotPath_def t j)
  show ?thesis
    unfolding executeStep_screenshot [OF a] p
    by (simp add: r split: option.split)
qed (simp_all add: executeStep_branch await_void_agree [OF _ r] await_text_agree [OF _ r])


lemma step_loop_agree:
  assumes "\<forall>h c. c \<noteq> Close \<longrightarrow> respond w' h c = respond w h c"
    and "new_URL w' = new_URL w" and "os_tmpdir w' = os_tmpdir w" and "path_join w' = path_join w"
  shows "step_loop w' ss acc h = step_loop w ss acc h"
  by (induction ss arbitrary: acc h)
     (simp_all add: step_loop.simps(2) executeStep_agree [OF assms])

lemma try_block_agree:
  assumes "\<forall>h c. c \<noteq> Close \<longrightarrow> respond w' h c = respond w h c"
    and "new_URL w' = new_URL w" and "os_tmpdir w' = os_tmpdir w" and "path_join w' = path_join w"
  shows "try_block w' pl h = try_block w pl h"
  by (simp add: try_block_def step_loop_agree [OF assms] assms(1) split: reply.split)

lemma executePlan_agree:
  assumes "\<forall>h c. c \<noteq> Close \<longrightarrow> respond w' h c = respond w h c"
    and "new_URL w' = new_URL w" and "os_tmpdir w' = os_tmpdir w" and "path_join w' = path_join w"
  shows "executePlan w' pl h = executePlan w pl h"
  by (simp add: executePlan_def try_block_agree [OF assms] finally_block_eq)

lemma executeStep_history:
  "\<exists>cs. snd (executeStep w s h) = h @ cs \<and> Close \<notin> set cs"
proof (rule executeStep_cases [of s])
  assume "action s = ''goto''"
  then show ?thesis
    by (simp add: executeStep_goto await_void_def split: option.split sum.split reply.split)
next
  assume "action s = ''screenshot''"
  then show ?thesis
    by (simp add: executeStep_screenshot split: option.split reply.split)
qed (simp_all add: executeStep_branch await_void_def await_text_def split: reply.split)

lemma step_loop_history:
  "\<exists>cs. snd (step_loop w ss acc h) = h @ cs \<and> Close \<notin> set cs"
proof (induction ss arbitrary: acc h)
  case Nil
  show ?case by simp
next
  case (Cons s ss)
  from executeStep_history [of w s h]
  obtain cs where cs: "snd (executeStep w s h) = h @ cs" "Close \<notin> set cs"
    by blast
  show ?case
  proof (cases "action s = ''closeBrowser''")
    case True
    with cs show ?thesis by (simp add: step_loop.simps(2))
  next
    case False
    from Cons.IH [of "acc @ [fst (executeStep w s h)]" "snd (executeStep w s h)"]
    obtain ds where "snd (step_loop w ss (acc @ [fst (executeStep w s h)]) (snd (executeStep w s h)))
        = snd (executeStep w s h) @ ds" "Close \<notin> set ds"
      by blast
    with cs False have "snd (step_loop w (s # ss) acc h) = h @ (cs @ ds) \<and> Close \<notin> set (cs @ ds)"
      by (simp add: step_loop.simps(2))
    then show ?thesis by blast
  qed
qed

lemma try_block_browser:
  "respond w h Launch = Returns v \<Longrightarrow> fst (snd (snd (try_block w pl h)))"
  by (simp add: try_block_def split: reply.split prod.split)

lemma try_block_launched:
  assumes "respond w h Launch = Returns v"
  shows "\<exists>th rs cs. try_block w pl h = (th, rs, True, h @ Launch # cs) \<and> Close \<notin> set cs"
proof (cases "init_error w h")
  case None
  from step_loop_history [of w "steps pl" "[]" "h @ [Launch, NewContext, NewPage]"]
  obtain cs where "snd (step_loop w (steps pl) [] (h @ [Launch, NewContext, NewPage]))
      = (h @ [Launch, NewContext, NewPage]) @ cs" "Close \<notin> set cs"
    by blast
  with init_ok_try_block [OF None, of pl]
  have "try_block w pl h = (None, fst (step_loop w (steps pl) [] (h @ [Launch, NewContext, NewPage])),
      True, h @ Launch # ([NewContext, NewPage] @ cs)) \<and> Close \<notin> set ([NewContext, NewPage] @ cs)"
    by simp
  then show ?thesis by blast
next
  case (Some m)
  from init_failed_try_block [OF Some, of pl] try_block_browser [OF assms, of pl]
  have "try_block w pl h = (Some m, [], True, h @ Launch # [NewContext])
          \<and> Close \<notin> set [NewContext]
       \<or> try_block w pl h = (Some m, [], True, h @ Launch # [NewContext, NewPage])
          \<and> Close \<notin> set [NewContext, NewPage]"
    by auto
  then show ?thesis by blast
qed

text \<open>
  Claim C5. Whenever the launch returned, whatever happens afterwards (set-up failure, step
  failures, early termination, normal completion), the last call of \<^verbatim>\<open>executePlan\<close> is the
  one and only \<^verbatim>\<open>browser.close()\<close>. How that call answers is immaterial: replacing the answer
  to \<open>Close\<close> by anything, a throw included, changes neither the results returned nor the
  calls made, so a failing close adds no result, alters none and is not thrown.
\<close>

theorem executePlan_always_closes:
  "(\<forall>v. respond w h Launch = Returns v \<longrightarrow>
      (\<exists>cs. snd (executePlan w pl h) = h @ Launch # cs @ [Close] \<and> Close \<notin> set cs))
   \<and> executePlan (w\<lparr>respond := \<lambda>h' c. if c = Close then r h' else respond w h' c\<rparr>) pl h
       = executePlan w pl h"
proof (intro conjI allI impI)
  fix v assume "respond w h Launch = Returns v"
  from try_block_launched [OF this, of pl]
  obtain th rs cs where "try_block w pl h = (th, rs, True, h @ Launch # cs)" "Close \<notin> set cs"
    by blast
  then have "snd (executePlan w pl h) = h @ Launch # cs @ [Close] \<and> Close \<notin> set cs"
    by (simp add: executePlan_def finally_block_eq)
  then show "\<exists>cs. snd (executePlan w pl h) = h @ Launch # cs @ [Close] \<and> Close \<notin> set cs"
    by blast
next
  show "executePlan (w\<lparr>respond := \<lambda>h' c. if c = Close then r h' else respond w h' c\<rparr>) pl h
       = executePlan w pl h"
    by (rule executePlan_agree) simp_all
qed

text \<open>
  On the sample platform with a close that throws, the early-terminated plan returns its two
  results unchanged and the history ends with the close.
\<close>

theorem executePlan_always_closes_witness:
  "respond (throwing_at Close ''close failed'') [] Launch = Returns []
   \<and> respond (throwing_at Close ''close failed'')
        [Launch, NewContext, NewPage, Goto ''https://example.com''] Close
        = Throws ''close failed''
   \<and> last (snd (executePlan (throwing_at Close ''close failed'') goto_close_shot [])) = Close
   \<and> executePlan (throwing_at Close ''close failed'') goto_close_shot [] =
     ([\<lparr>result_action = ''goto'', success = True, data = None, error = None\<rparr>,
       \<lparr>result_action = ''closeBrowser'', success = True, data = None, error = None\<rparr>],
      [Launch, NewContext, NewPage, Goto ''https://example.com'', Close])"
proof -
  let ?w = "throwing_at Close ''close failed''"
  have launched: "respond ?w [] Launch = Returns []"
    by (simp add: throwing_at_def)
  have close: "respond ?w [Launch, NewContext, NewPage, Goto ''https://example.com''] Close
      = Throws ''close failed''"
    by (simp add: throwing_at_def)
  from executePlan_always_closes [of ?w "[]" goto_close_shot] launched
  obtain cs where "snd (executePlan ?w goto_close_shot []) = [] @ Launch # cs @ [Close]"
    by blast
  then have closed: "last (snd (executePlan ?w goto_close_shot [])) = Close"
    by simp
  have r: "respond sample_world = (\<lambda>h c. Returns [])"
    by (simp add: sample_world_def)
  have w: "?w =
      sample_world\<lparr>respond := \<lambda>h' c. if c = Close then Throws ''close failed''
                                     else respond sample_world h' c\<rparr>"
    unfolding throwing_at_def r by simp
  from executePlan_always_closes
    [of sample_world "[]" goto_close_shot "\<lambda>h'. Throws ''close failed''"]
  have "executePlan ?w goto_close_shot [] = executePlan sample_world goto_close_shot []"
    unfolding w by blast
  with launched close closed show ?thesis
    by (simp add: sample_run)
qed

subsection \<open>Navigation\<close>

lemma cites_append: "cites x (pre @ x @ post)"
proof -
  have "length pre \<in> set [0..<Suc (length (pre @ x @ post))]"
    by simp
  moreover have "take (length x) (drop (length pre) (pre @ x @ post)) = x"
    by simp
  ultimately show ?thesis
    unfolding cites_def list_ex_iff by blast
qed

lemma cites_Nil: "cites [] e"
  using cites_append [of "[]" "[]" e] by simp

lemma cites_invalid_url: "cites u (''Invalid URL: \"'' @ u @ ''\" - '' @ msg)"
  by (rule cites_append)

lemma cites_protocol: "cites p (''Only http and https URLs are allowed, got \"'' @ p @ ''\"'')"
  by (rule cites_append)

text \<open>
  Claim C2. A \<^verbatim>\<open>goto\<close> step whose url string \<^verbatim>\<open>new URL\<close> cannot parse, or parses to a protocol
  other than \<^verbatim>\<open>http:\<close> and \<^verbatim>\<open>https:\<close>, yields a failed result without data, and the history is
  unchanged: \<^verbatim>\<open>page.goto\<close> is not called, nor anything else. The error message cites the
  disallowed protocol or the url. For a non-empty url it is exactly
  \<^verbatim>\<open>Invalid URL: "<url>" - <message>\<close> when the url does not parse and
  \<^verbatim>\<open>Only http and https URLs are allowed, got "<protocol>"\<close> when the protocol is refused; for
  the empty url, which occurs in every message, it is the \<^verbatim>\<open>"url" is required for goto\<close> of
  the guard \<^verbatim>\<open>!step.url\<close>.
\<close>

theorem executeStep_goto_rejects:
  assumes "action s = ''goto''" and "url s = Some u" and "url_refused w u"
  shows "snd (executeStep w s h) = h
       \<and> result_action (fst (executeStep w s h)) = ''goto''
       \<and> success (fst (executeStep w s h)) = False
       \<and> data (fst (executeStep w s h)) = None
       \<and> (\<exists>e. error (fst (executeStep w s h)) = Some e
              \<and> ((\<exists>p. new_URL w u = Inr p \<and> cites p e) \<or> cites u e))
       \<and> (\<forall>msg. u \<noteq> [] \<and> new_URL w u = Inl msg \<longrightarrow>
              error (fst (executeStep w s h)) = Some (''Invalid URL: \"'' @ u @ ''\" - '' @ msg))
       \<and> (\<forall>p. u \<noteq> [] \<and> new_URL w u = Inr p \<longrightarrow>
              error (fst (executeStep w s h))
                = Some (''Only http and https URLs are allowed, got \"'' @ p @ ''\"''))
       \<and> (u = [] \<longrightarrow> error (fst (executeStep w s h)) = Some ''\"url\" is required for goto'')"
proof (cases "u = []")
  case True
  with assms(1,2) have "executeStep w s h = (failed s ''\"url\" is required for goto'', h)"
    by (simp add: executeStep_goto)
  with True assms(1) show ?thesis
    by (simp add: failed_def cites_Nil)
next
  case False
  show ?thesis
  proof (cases "new_URL w u")
    case (Inl msg)
    with False assms(1,2) have "executeStep w s h =
        (failed s (''Invalid URL: \"'' @ u @ ''\" - '' @ msg), h)"
      by (simp add: executeStep_goto)
    with False Inl assms(1) cites_invalid_url [of u msg] show ?thesis
      by (simp add: failed_def)
  next
    case (Inr p)
    with assms(3) have "p \<noteq> ''http:'' \<and> p \<noteq> ''https:''"
      by (simp add: url_refused_def)
    with False Inr assms(1,2) have "executeStep w s h =
        (failed s (''Only http and https URLs are allowed, got \"'' @ p @ ''\"''), h)"
      by (simp add: executeStep_goto)
    with False Inr assms(1) cites_protocol [of p] show ?thesis
      by (simp add: failed_def)
  qed
qed

text \<open>
  The two URLs named by the specification, a string without a scheme and the empty string,
  on the sample platform.
\<close>

lemma sample_file: "sample_new_URL ''file:///etc/passwd'' = Inr ''file:''"
  by (simp add: sample_new_URL_def sample_urls_def)

lemma sample_javascript: "sample_new_URL ''javascript:alert(1)'' = Inr ''javascript:''"
  by (simp add: sample_new_URL_def sample_urls_def)

lemma sample_empty: "sample_new_URL [] = Inl ''Invalid URL''"
  by (simp add: sample_new_URL_def sample_urls_def)

lemma sample_no_scheme: "sample_new_URL ''not a url'' = Inl ''Invalid URL''"
  by (simp add: sample_new_URL_def sample_urls_def)

lemma sample_refused:
  "url_refused sample_world ''file:///etc/passwd''"
  "url_refused sample_world ''javascript:alert(1)''"
  "url_refused sample_world ''not a url''"
  "url_refused sample_world []"
  by (simp_all add: url_refused_def sample_world_def sample_file sample_javascript
      sample_no_scheme sample_empty)

theorem executeStep_goto_rejects_witness:
  "action (goto_step ''file:///etc/passwd'') = ''goto''
   \<and> url (goto_step ''file:///etc/passwd'') = Some ''file:///etc/passwd''
   \<and> url_refused sample_world ''file:///etc/passwd''
   \<and> new_URL sample_world ''file:///etc/passwd'' = Inr ''file:''
   \<and> executeStep sample_world (goto_step ''file:///etc/passwd'') [] =
        (\<lparr>result_action = ''goto'', success = False, data = None,
          error = Some ''Only http and https URLs are allowed, got \"file:\"''\<rparr>, [])
   \<and> url_refused sample_world ''javascript:alert(1)''
   \<and> new_URL sample_world ''javascript:alert(1)'' = Inr ''javascript:''
   \<and> executeStep sample_world (goto_step ''javascript:alert(1)'') [] =
        (\<lparr>result_action = ''goto'', success = False, data = None,
          error = Some ''Only http and https URLs are allowed, got \"javascript:\"''\<rparr>, [])
   \<and> url_refused sample_world ''not a url''
   \<and> new_URL sample_world ''not a url'' = Inl ''Invalid URL''
   \<and> executeStep sample_world (goto_step ''not a url'') [] =
        (\<lparr>result_action = ''goto'', success = False, data = None,
          error = Some ''Invalid URL: \"not a url\" - Invalid URL''\<rparr>, [])
   \<and> url_refused sample_world []
   \<and> executeStep sample_world (goto_step []) [] =
        (\<lparr>result_action = ''goto'', success = False, data = None,
          error = Some ''\"url\" is required for goto''\<rparr>, [])"
proof -
  have a: "\<And>u. action (goto_step u) = ''goto''" and u: "\<And>u. url (goto_step u) = Some u"
    by (simp_all add: goto_step_def bare_step_def)
  have f: "new_URL sample_world ''file:///etc/passwd'' = Inr ''file:''"
    and j: "new_URL sample_world ''javascript:alert(1)'' = Inr ''javascript:''"
    and n: "new_URL sample_world ''not a url'' = Inl ''Invalid URL''"
    by (simp_all add: sample_world_def sample_file sample_javascript sample_no_scheme)
  have eq: "\<And>r h'. result_action r = ''goto'' \<Longrightarrow> success r = False \<Longrightarrow> data r = None
      \<Longrightarrow> error r = Some e \<Longrightarrow> r = \<lparr>result_action = ''goto'', success = False, data = None,
          error = Some e\<rparr>" for e
    by simp
  from executeStep_goto_rejects [OF a u sample_refused(1), of "[]"] f
  have 1: "executeStep sample_world (goto_step ''file:///etc/passwd'') [] =
        (\<lparr>result_action = ''goto'', success = False, data = None,
          error = Some ''Only http and https URLs are allowed, got \"file:\"''\<rparr>, [])"
    by (simp add: prod_eq_iff eq)
  from executeStep_goto_rejects [OF a u sample_refused(2), of "[]"] j
  have 2: "executeStep sample_world (goto_step ''javascript:alert(1)'') [] =
        (\<lparr>result_action = ''goto'', success = False, data = None,
          error = Some ''Only http and https URLs are allowed, got \"javascript:\"''\<rparr>, [])"
    by (simp add: prod_eq_iff eq)
  from executeStep_goto_rejects [OF a u sample_refused(3), of "[]"] n
  have 3: "executeStep sample_world (goto_step ''not a url'') [] =
        (\<lparr>result_action = ''goto'', success = False, data = None,
          error = Some ''Invalid URL: \"not a url\" - Invalid URL''\<rparr>, [])"
    by (simp add: prod_eq_iff eq)
  from executeStep_goto_rejects [OF a u sample_refused(4), of "[]"]
  have 4: "executeStep sample_world (goto_step []) [] =
        (\<lparr>result_action = ''goto'', success = False, data = None,
          error = Some ''\"url\" is required for goto''\<rparr>, [])"
    by (simp add: prod_eq_iff eq)
  from a u sample_refused f j n 1 2 3 4 show ?thesis
    by simp
qed

subsection \<open>Screenshots\<close>

lemma safe_char_underscore: "safe_char (CHR ''_'')"
  by (simp add: safe_char_def)

lemma safeName_safe: "list_all safe_char (safeName n)"
  by (auto simp: safeName_def list_all_iff safe_char_underscore)

lemma png_safe: "list_all safe_char ''.png''"
  by (simp add: safe_char_def)

lemma safeName_length: "length (safeName n) = length (basename n)"
  by (simp add: safeName_def)

lemma slash_unsafe: "\<not> safe_char (CHR ''/'')"
  by (simp add: safe_char_def)

text \<open>
  Claim C3, as amended. The screenshot branch does not strip: it takes the base name of the
  caller-given name and replaces every character outside \<^verbatim>\<open>[a-zA-Z0-9_.-]\<close> by an underscore.
  When the screenshot is taken, the data of the successful result is exactly
  \<^verbatim>\<open>path.join(os.tmpdir(), safeName + '.png')\<close>, the path the screenshot was written to, and
  the file name joined to the temporary directory consists of characters of the class only,
  so it holds no slash.
\<close>

theorem executeStep_screenshot_path:
  assumes "action s = ''screenshot''" and "name s = Some n"
    and "respond w h (Screenshot (screenshotPath w n)) = Returns v"
  shows "executeStep w s h =
           (\<lparr>result_action = ''screenshot'', success = True,
             data = Some (path_join w (os_tmpdir w) (safeName n @ ''.png'')), error = None\<rparr>,
            h @ [Screenshot (path_join w (os_tmpdir w) (safeName n @ ''.png''))])
       \<and> safeName n = map (\<lambda>c. if safe_char c then c else CHR ''_'') (basename n)
       \<and> list_all safe_char (safeName n @ ''.png'')
       \<and> CHR ''/'' \<notin> set (safeName n @ ''.png'')"
proof -
  from assms have "executeStep w s h =
      (succeeded s (Some (screenshotPath w n)), h @ [Screenshot (screenshotPath w n)])"
    by (simp add: executeStep_screenshot)
  with assms(1) have "executeStep w s h =
           (\<lparr>result_action = ''screenshot'', success = True,
             data = Some (path_join w (os_tmpdir w) (safeName n @ ''.png'')), error = None\<rparr>,
            h @ [Screenshot (path_join w (os_tmpdir w) (safeName n @ ''.png''))])"
    by (simp add: succeeded_def screenshotPath_def)
  moreover have safe: "list_all safe_char (safeName n @ ''.png'')"
    using safeName_safe [of n] png_safe by simp
  moreover from safe have "CHR ''/'' \<notin> set (safeName n @ ''.png'')"
    unfolding list_all_iff using slash_unsafe by blast
  ultimately show ?thesis
    by (simp add: safeName_def)
qed

text \<open>The name \<^verbatim>\<open>../../evil<script>\<close> on the sample platform.\<close>

lemma basename_evil: "basename ''../../evil<script>'' = ''evil<script>''"
  by (simp add: basename_def)

lemma safeName_evil: "safeName ''../../evil<script>'' = ''evil_script_''"
  by (simp add: safeName_def basename_evil safe_char_def)

lemma strip_evil: "strip_unsafe ''../../evil<script>'' = ''....evilscript''"
  by (simp add: strip_unsafe_def safe_char_def)

theorem executeStep_screenshot_path_witness:
  "action (screenshot_step ''../../evil<script>'') = ''screenshot''
   \<and> name (screenshot_step ''../../evil<script>'') = Some ''../../evil<script>''
   \<and> respond sample_world [] (Screenshot (screenshotPath sample_world ''../../evil<script>''))
        = Returns []
   \<and> executeStep sample_world (screenshot_step ''../../evil<script>'') [] =
        (\<lparr>result_action = ''screenshot'', success = True,
          data = Some ''/tmp/evil_script_.png'', error = None\<rparr>,
         [Screenshot ''/tmp/evil_script_.png''])"
proof -
  have a: "action (screenshot_step ''../../evil<script>'') = ''screenshot''"
    by (simp add: screenshot_step_def bare_step_def)
  have n: "name (screenshot_step ''../../evil<script>'') = Some ''../../evil<script>''"
    by (simp add: screenshot_step_def bare_step_def)
  have r: "respond sample_world [] (Screenshot (screenshotPath sample_world ''../../evil<script>''))
        = Returns []"
    by (simp add: sample_world_def)
  have p: "path_join sample_world (os_tmpdir sample_world) (safeName ''../../evil<script>'' @ ''.png'')
      = ''/tmp/evil_script_.png''"
    by (simp add: sample_world_def safeName_evil)
  from executeStep_screenshot_path [OF a n r] a n r show ?thesis
    unfolding p by simp
qed

text \<open>
  The claim as stated fails at that name: stripping would leave \<^verbatim>\<open>....evilscript\<close>, while the
  code computes \<^verbatim>\<open>evil_script_\<close>, and the data of the result is the path of the latter.
\<close>

theorem executeStep_screenshot_path_counterexample:
  "safeName ''../../evil<script>'' = ''evil_script_''
   \<and> strip_unsafe ''../../evil<script>'' = ''....evilscript''
   \<and> fst (executeStep sample_world (screenshot_step ''../../evil<script>'') []) =
        \<lparr>result_action = ''screenshot'', success = True,
         data = Some ''/tmp/evil_script_.png'', error = None\<rparr>
   \<and> path_join sample_world (os_tmpdir sample_world)
         (strip_unsafe ''../../evil<script>'' @ ''.png'') = ''/tmp/....evilscript.png''
   \<and> ''/tmp/evil_script_.png'' \<noteq> ''/tmp/....evilscript.png''"
proof -
  have "executeStep sample_world (screenshot_step ''../../evil<script>'') [] =
        (\<lparr>result_action = ''screenshot'', success = True,
          data = Some ''/tmp/evil_script_.png'', error = None\<rparr>,
         [Screenshot ''/tmp/evil_script_.png''])"
    by (simp add: executeStep_screenshot screenshot_step_def bare_step_def screenshotPath_def
        sample_world_def safeName_evil succeeded_def)
  then show ?thesis
    by (simp add: safeName_evil strip_evil sample_world_def)
qed


section \<open>Validator and runner together\<close>

subsection \<open>What an accepted plan looks like\<close>



lemma validateActionPlan_accepts:
  assumes "is_object raw" and "as_array (get_prop raw ''steps'') = Some stepsArr"
    and "\<forall>i<length stepsArr. validateStep (stepsArr ! i) i tools = []"
  shows "validateActionPlan raw tools =
           \<lparr>valid = True, errors = [], plan = Some \<lparr>steps = map as_ActionStep stepsArr\<rparr>\<rparr>"
proof -
  from assms(3) have "concat (map (\<lambda>i. validateStep (stepsArr ! i) i tools) [0..<length stepsArr]) = []"
    by simp
  then have "validate_loop stepsArr tools 0 [] = []"
    by (simp add: validate_loop_concat)
  with assms(1,2) show ?thesis
    by (simp add: validateActionPlan_def)
qed


subsection \<open>Screenshot names that collide\<close>

lemma screenshot_plan_accepted:
  assumes "n \<noteq> []"
  shows "validateActionPlan (screenshot_plan n) AVAILABLE_TOOLS =
           \<lparr>valid = True, errors = [], plan = Some \<lparr>steps = [screenshot_step n]\<rparr>\<rparr>"
proof -
  have "validateStep (screenshot_json n) 0 AVAILABLE_TOOLS = []"
    using assms
    by (simp add: validateStep_def screenshot_json_def AVAILABLE_TOOLS_def missing_or_blank_def)
  moreover have "as_ActionStep (screenshot_json n) = screenshot_step n"
    by (simp add: as_ActionStep_def screenshot_json_def screenshot_step_def bare_step_def)
  ultimately show ?thesis
    using validateActionPlan_accepts [of "screenshot_plan n" "[screenshot_json n]" AVAILABLE_TOOLS]
    by (simp add: screenshot_plan_def)
qed

lemma executeStep_screenshot_call:
  "snd (executeStep w (screenshot_step n) h) = h @ [Screenshot (screenshotPath w n)]"
  by (simp add: executeStep_screenshot screenshot_step_def bare_step_def split: reply.split)

text \<open>
  Claim C10. The validator accepts the screenshot name \<^verbatim>\<open>/\<close>, whose sanitised file name is
  empty: executing the accepted step takes the screenshot at exactly
  \<^verbatim>\<open>path.join(os.tmpdir(), '.png')\<close>. And the two distinct accepted names \<^verbatim>\<open>a b\<close> and \<^verbatim>\<open>a_b\<close>
  map to the same file path. So a non-empty name guarantees neither a non-empty file name
  nor distinct files.
\<close>

theorem screenshot_names_collide:
  "validateActionPlan (screenshot_plan ''/'') AVAILABLE_TOOLS =
      \<lparr>valid = True, errors = [], plan = Some \<lparr>steps = [screenshot_step ''/'']\<rparr>\<rparr>
   \<and> safeName ''/'' = []
   \<and> snd (executeStep w (screenshot_step ''/'') h) =
        h @ [Screenshot (path_join w (os_tmpdir w) ''.png'')]
   \<and> valid (validateActionPlan (screenshot_plan ''a b'') AVAILABLE_TOOLS)
   \<and> valid (validateActionPlan (screenshot_plan ''a_b'') AVAILABLE_TOOLS)
   \<and> ''a b'' \<noteq> ''a_b''
   \<and> screenshotPath w ''a b'' = screenshotPath w ''a_b''"
proof -
  have e: "safeName ''/'' = []"
    by (simp add: safeName_def basename_def)
  have "safeName ''a b'' = safeName ''a_b''"
    by (simp add: safeName_def basename_def safe_char_def)
  then have "screenshotPath w ''a b'' = screenshotPath w ''a_b''"
    by (simp add: screenshotPath_def)
  moreover have "snd (executeStep w (screenshot_step ''/'') h) =
        h @ [Screenshot (path_join w (os_tmpdir w) ''.png'')]"
    by (simp add: executeStep_screenshot_call screenshotPath_def e)
  ultimately show ?thesis
    using e by (simp add: screenshot_plan_accepted)
qed

text \<open>On the sample platform the paths are \<^verbatim>\<open>/tmp/.png\<close> and \<^verbatim>\<open>/tmp/a_b.png\<close>.\<close>

theorem screenshot_names_collide_witness:
  "snd (executeStep sample_world (screenshot_step ''/'') []) = [Screenshot ''/tmp/.png'']
   \<and> screenshotPath sample_world ''a b'' = ''/tmp/a_b.png''
   \<and> screenshotPath sample_world ''a_b'' = ''/tmp/a_b.png''"
proof -
  have "screenshotPath sample_world ''a_b'' = ''/tmp/a_b.png''"
    by (simp add: screenshotPath_def safeName_def basename_def safe_char_def sample_world_def)
  with screenshot_names_collide [of sample_world "[]"] show ?thesis
    by (simp add: sample_world_def)
qed


subsection \<open>The defensive branches of the runner\<close>














end
